theory Spec2Isabelle
  imports Complex_Main
begin

section \<open>Python values and exceptions\<close>

text \<open>
  The program (src/main.py) reads a JSON listing, builds download URLs from it and drives
  a Chrome browser through Selenium. The values it handles are what \<open>json.loads\<close>
  returns: \<open>None\<close>, booleans, integers, floats, strings, lists and dicts. A dict is
  kept as the list of its items in insertion order (its keys are distinct); a float is a
  finite rational or one of the three special values \<open>json.loads\<close> accepts.
\<close>

datatype pyfloat = Finite rat | PosInf | NegInf | NaN

datatype json =
    JNull
  | JBool bool
  | JInt int
  | JFloat pyfloat
  | JString string
  | JArray "json list"
  | JObject "(string \<times> json) list"

text \<open>
  Exceptions are values, one constructor per Python class that this program can meet,
  each with the text of \<open>str(e)\<close>.
\<close>

datatype py_error =
    JSONDecodeError string
  | KeyError string
  | TypeError string
  | AttributeError string
  | IndexError string
  | RecursionError string
  | FileExistsError string
  | FileNotFoundError string
  | IsADirectoryError string
  | WebDriverException string

fun error_message :: "py_error \<Rightarrow> string" where
  "error_message (JSONDecodeError m) = m"
| "error_message (KeyError m) = m"
| "error_message (TypeError m) = m"
| "error_message (AttributeError m) = m"
| "error_message (IndexError m) = m"
| "error_message (RecursionError m) = m"
| "error_message (FileExistsError m) = m"
| "error_message (FileNotFoundError m) = m"
| "error_message (IsADirectoryError m) = m"
| "error_message (WebDriverException m) = m"

fun type_name :: "json \<Rightarrow> string" where
  "type_name JNull = ''NoneType''"
| "type_name (JBool _) = ''bool''"
| "type_name (JInt _) = ''int''"
| "type_name (JFloat _) = ''float''"
| "type_name (JString _) = ''str''"
| "type_name (JArray _) = ''list''"
| "type_name (JObject _) = ''dict''"

text \<open>A string between single quotes, as Python's messages show names and paths.\<close>

definition quoted :: "string \<Rightarrow> string" where
  "quoted s = [CHR 0x27] @ s @ [CHR 0x27]"

text \<open>\<open>x.get(key, default)\<close>: only a dict has the method.\<close>

fun py_get :: "json \<Rightarrow> string \<Rightarrow> json \<Rightarrow> py_error + json" where
  "py_get (JObject kvs) k d = Inr (case map_of kvs k of Some v \<Rightarrow> v | None \<Rightarrow> d)"
| "py_get v k d =
     Inl (AttributeError (quoted (type_name v) @ '' object has no attribute '' @ quoted ''get''))"

text \<open>
  \<open>for row in x\<close>: a list yields its elements, a dict its keys, a string its
  characters (strings of length one); nothing else is iterable.
\<close>

fun py_iter :: "json \<Rightarrow> py_error + json list" where
  "py_iter (JArray xs) = Inr xs"
| "py_iter (JObject kvs) = Inr (map (\<lambda>kv. JString (fst kv)) kvs)"
| "py_iter (JString s) = Inr (map (\<lambda>c. JString [c]) s)"
| "py_iter v = Inl (TypeError (quoted (type_name v) @ '' object is not iterable''))"

text \<open>\<open>x[key]\<close> with a string key.\<close>

fun py_subscript :: "json \<Rightarrow> string \<Rightarrow> py_error + json" where
  "py_subscript (JObject kvs) k =
     (case map_of kvs k of Some v \<Rightarrow> Inr v | None \<Rightarrow> Inl (KeyError (quoted k)))"
| "py_subscript (JArray _) k =
     Inl (TypeError ''list indices must be integers or slices, not str'')"
| "py_subscript (JString _) k =
     Inl (TypeError (''string indices must be integers, not '' @ quoted ''str''))"
| "py_subscript v k = Inl (TypeError (quoted (type_name v) @ '' object is not subscriptable''))"

text \<open>\<open>s.endswith(t)\<close>.\<close>

definition endswith :: "string \<Rightarrow> string \<Rightarrow> bool" where
  "endswith s t = (drop (length s - length t) s = t)"

text \<open>\<open>x == k\<close> for an integer \<open>k\<close>: Python compares numbers by value across
  \<open>int\<close>, \<open>float\<close> and \<open>bool\<close>; a value of any other type is unequal.\<close>

fun py_eq_int :: "json \<Rightarrow> int \<Rightarrow> bool" where
  "py_eq_int (JInt n) k = (n = k)"
| "py_eq_int (JFloat (Finite r)) k = (r = of_int k)"
| "py_eq_int (JFloat _) k = False"
| "py_eq_int (JBool b) k = ((if b then 1 else 0) = k)"
| "py_eq_int _ k = False"

section \<open>The world outside the program\<close>

text \<open>
  The file system maps a path, as the string the program passes, to what is there. The
  program prints lines and calls the browser driver; both are recorded in order.
\<close>

datatype node = File string | Dir

type_synonym filesystem = "string \<Rightarrow> node option"

datatype event = Launch string | Get string | GetLog | Quit

record world =
  fs :: filesystem
  stdout :: "string list"
  calls :: "event list"

text \<open>
  What the program cannot decide is a parameter: the JSON parser of the standard library,
  the directory holding the script, and the browser (whether Chrome starts, what a
  navigation does to the files on disk or which error it raises, which performance log
  the driver hands back, whether quitting raises).
\<close>

record env =
  json_loads :: "string \<Rightarrow> py_error + json"
  script_dir :: string
  chrome_start :: "string \<Rightarrow> py_error option"
  driver_get :: "string \<Rightarrow> world \<Rightarrow> py_error + filesystem"
  driver_get_log :: "world \<Rightarrow> py_error + json list"
  driver_quit :: "world \<Rightarrow> py_error option"

definition print_line :: "string \<Rightarrow> world \<Rightarrow> world" where
  "print_line l w = w\<lparr>stdout := stdout w @ [l]\<rparr>"

definition record_call :: "event \<Rightarrow> world \<Rightarrow> world" where
  "record_call e w = w\<lparr>calls := calls w @ [e]\<rparr>"

section \<open>File system helpers (main.py, lines 17-67)\<close>

text \<open>\<open>os.mkdir\<close>: fails when the path is taken. The parent is not looked at: the
  one directory the program creates lies beside the running script.\<close>

definition create_directory_at_path :: "string \<Rightarrow> world \<Rightarrow> (py_error + unit) \<times> world" where
  "create_directory_at_path system_path w =
     (case fs w system_path of
        None \<Rightarrow> (Inr (), w\<lparr>fs := (fs w)(system_path \<mapsto> Dir)\<rparr>)
      | Some _ \<Rightarrow>
          (Inl (FileExistsError (''[Errno 17] File exists: '' @ quoted system_path)), w))"

definition check_directory_exists :: "filesystem \<Rightarrow> string \<Rightarrow> bool" where
  "check_directory_exists f system_path = (f system_path \<noteq> None)"

definition check_file_exists :: "filesystem \<Rightarrow> string \<Rightarrow> bool" where
  "check_file_exists f system_path =
     (case f system_path of Some (File _) \<Rightarrow> True | _ \<Rightarrow> False)"

definition read_a_file :: "string \<Rightarrow> world \<Rightarrow> (py_error + string) \<times> world" where
  "read_a_file system_path w =
     (case fs w system_path of
        Some (File content) \<Rightarrow> (Inr content, w)
      | Some Dir \<Rightarrow>
          (Inl (IsADirectoryError (''[Errno 21] Is a directory: '' @ quoted system_path)), w)
      | None \<Rightarrow>
          (Inl (FileNotFoundError
             (''[Errno 2] No such file or directory: '' @ quoted system_path)), w))"

section \<open>Browser set-up (main.py, lines 88-129)\<close>

text \<open>\<open>os.makedirs(name, exist_ok=True)\<close>: nothing to do on a directory, an error on
  any other existing path, the directory created otherwise.\<close>

definition os_makedirs_exist_ok :: "string \<Rightarrow> world \<Rightarrow> (py_error + unit) \<times> world" where
  "os_makedirs_exist_ok name w =
     (case fs w name of
        Some Dir \<Rightarrow> (Inr (), w)
      | Some (File _) \<Rightarrow>
          (Inl (FileExistsError (''[Errno 17] File exists: '' @ quoted name)), w)
      | None \<Rightarrow> (Inr (), w\<lparr>fs := (fs w)(name \<mapsto> Dir)\<rparr>))"

definition setup_browser :: "env \<Rightarrow> string \<Rightarrow> world \<Rightarrow> (py_error + unit) \<times> world" where
  "setup_browser en download_dir w =
     (case os_makedirs_exist_ok download_dir w of
        (Inl e, w1) \<Rightarrow> (Inl e, w1)
      | (Inr _, w1) \<Rightarrow>
          (let w2 = record_call (Launch download_dir) w1
           in case chrome_start en download_dir of
                Some e \<Rightarrow> (Inl e, w2)
              | None \<Rightarrow> (Inr (), w2)))"

section \<open>Status of a navigation (main.py, lines 133-200)\<close>

definition do_get :: "env \<Rightarrow> string \<Rightarrow> world \<Rightarrow> (py_error + unit) \<times> world" where
  "do_get en url w =
     (let w1 = record_call (Get url) w
      in case driver_get en url w of
           Inl e \<Rightarrow> (Inl e, w1)
         | Inr f \<Rightarrow> (Inr (), w1\<lparr>fs := f\<rparr>))"

definition do_get_log :: "env \<Rightarrow> world \<Rightarrow> (py_error + json list) \<times> world" where
  "do_get_log en w =
     (let w1 = record_call GetLog w
      in case driver_get_log en w of
           Inl e \<Rightarrow> (Inl e, w1)
         | Inr logs \<Rightarrow> (Inr logs, w1))"

text \<open>\<open>json.loads(s=x)\<close> on a value that need not be a string.\<close>

definition loads_value :: "(string \<Rightarrow> py_error + json) \<Rightarrow> json \<Rightarrow> py_error + json" where
  "loads_value loads x =
     (case x of
        JString s \<Rightarrow> loads s
      | _ \<Rightarrow> Inl (TypeError (''the JSON object must be str, bytes or bytearray, not ''
                                @ type_name x)))"

text \<open>
  The body of the \<open>try\<close> for one log entry (lines 158-167): \<open>Inr (Some v)\<close> is
  \<open>return v\<close>, \<open>Inr None\<close> falls through to the next entry, \<open>Inl e\<close> is an
  exception, which the \<open>except Exception\<close> of line 168 turns into \<open>continue\<close>.
\<close>

definition entry_status ::
  "(string \<Rightarrow> py_error + json) \<Rightarrow> string \<Rightarrow> json \<Rightarrow> py_error + json option" where
  "entry_status loads target_url log_entry =
     (case py_subscript log_entry ''message'' of Inl e \<Rightarrow> Inl e | Inr raw \<Rightarrow>
     (case loads_value loads raw of Inl e \<Rightarrow> Inl e | Inr outer \<Rightarrow>
     (case py_subscript outer ''message'' of Inl e \<Rightarrow> Inl e | Inr message \<Rightarrow>
     (case py_subscript message ''method'' of Inl e \<Rightarrow> Inl e | Inr method \<Rightarrow>
        if method = JString ''Network.responseReceived'' then
          (case py_subscript message ''params'' of Inl e \<Rightarrow> Inl e | Inr params \<Rightarrow>
          (case py_subscript params ''response'' of Inl e \<Rightarrow> Inl e | Inr response \<Rightarrow>
          (case py_subscript response ''url'' of Inl e \<Rightarrow> Inl e | Inr u \<Rightarrow>
             if u = JString target_url then
               (case py_subscript response ''status'' of
                  Inl e \<Rightarrow> Inl e
                | Inr st \<Rightarrow> Inr (Some st))
             else Inr None)))
        else Inr None))))"

text \<open>The loop over the log (lines 156-173); \<open>JNull\<close> is Python's \<open>None\<close>.\<close>

fun scan_logs :: "(string \<Rightarrow> py_error + json) \<Rightarrow> string \<Rightarrow> json list \<Rightarrow> json" where
  "scan_logs loads target_url [] = JNull"
| "scan_logs loads target_url (log_entry # browser_logs) =
     (case entry_status loads target_url log_entry of
        Inr (Some st) \<Rightarrow> st
      | _ \<Rightarrow> scan_logs loads target_url browser_logs)"

text \<open>Lines 147-153: the blank page, the target, then the performance log.\<close>

definition capture_logs :: "env \<Rightarrow> string \<Rightarrow> world \<Rightarrow> (py_error + json list) \<times> world" where
  "capture_logs en target_url w =
     (case do_get en ''about:blank'' w of
        (Inl e, w1) \<Rightarrow> (Inl e, w1)
      | (Inr _, w1) \<Rightarrow>
     (case do_get en target_url w1 of
        (Inl e, w2) \<Rightarrow> (Inl e, w2)
      | (Inr _, w2) \<Rightarrow> do_get_log en w2))"

definition get_http_status_code_from_browser ::
  "env \<Rightarrow> string \<Rightarrow> world \<Rightarrow> (py_error + json) \<times> world" where
  "get_http_status_code_from_browser en target_url w =
     (case capture_logs en target_url w of
        (Inl e, w1) \<Rightarrow> (Inl e, w1)
      | (Inr browser_logs, w1) \<Rightarrow> (Inr (scan_logs (json_loads en) target_url browser_logs), w1))"

definition download_pdf_if_valid :: "env \<Rightarrow> string \<Rightarrow> world \<Rightarrow> (py_error + bool) \<times> world" where
  "download_pdf_if_valid en pdf_url w =
     (case get_http_status_code_from_browser en pdf_url w of
        (Inl e, w1) \<Rightarrow> (Inl e, w1)
      | (Inr status_code, w1) \<Rightarrow>
          (if py_eq_int status_code 200 then (Inr True, w1) else (Inr False, w1)))"

section \<open>Paths (main.py, lines 204-205, 261, 295)\<close>

text \<open>\<open>os.path.basename\<close> (POSIX): the text after the last slash.\<close>

definition get_file_name_from_url :: "string \<Rightarrow> string" where
  "get_file_name_from_url input_url = rev (takeWhile (\<lambda>c. c \<noteq> CHR ''/'') (rev input_url))"

text \<open>\<open>os.path.join\<close> (POSIX) of two parts.\<close>

definition os_path_join :: "string \<Rightarrow> string \<Rightarrow> string" where
  "os_path_join a b =
     (if take 1 b = ''/'' then b
      else if a = [] \<or> endswith a ''/'' then a @ b
      else a @ ''/'' @ b)"

text \<open>\<open>str(Path(__file__).resolve().parent / "PDFs")\<close>: the parent is a resolved
  directory, so it ends with a slash only when it is the root.\<close>

definition output_directory :: "env \<Rightarrow> string" where
  "output_directory en =
     (if script_dir en = ''/'' then ''/PDFs'' else script_dir en @ ''/PDFs'')"

section \<open>Extraction (main.py, lines 213-242)\<close>

text \<open>
  The condition and the element of the comprehension for one row (lines 229-233):
  \<open>Inr (Some id)\<close> keeps \<open>row[0]\<close>, \<open>Inr None\<close> drops the row, and \<open>row[0]\<close>
  on an empty list raises.
\<close>

fun row_pdf_id :: "json \<Rightarrow> py_error + string option" where
  "row_pdf_id (JArray []) = Inl (IndexError ''list index out of range'')"
| "row_pdf_id (JArray (JString s # _)) = Inr (if endswith s ''_PDF'' then Some s else None)"
| "row_pdf_id (JArray (_ # _)) = Inr None"
| "row_pdf_id _ = Inr None"

fun pdf_ids_of :: "json list \<Rightarrow> py_error + string list" where
  "pdf_ids_of [] = Inr []"
| "pdf_ids_of (row # records) =
     (case row_pdf_id row of
        Inl e \<Rightarrow> Inl e
      | Inr None \<Rightarrow> pdf_ids_of records
      | Inr (Some pdf_id) \<Rightarrow>
          (case pdf_ids_of records of
             Inl e \<Rightarrow> Inl e
           | Inr pdf_ids \<Rightarrow> Inr (pdf_id # pdf_ids)))"

text \<open>The body of the \<open>try\<close> (lines 225-238).\<close>

definition extract_body ::
  "(string \<Rightarrow> py_error + json) \<Rightarrow> string \<Rightarrow> string \<Rightarrow> py_error + string list" where
  "extract_body loads json_string base_url =
     (case loads json_string of Inl e \<Rightarrow> Inl e | Inr parsed_json \<Rightarrow>
     (case py_get parsed_json ''data'' (JObject []) of Inl e \<Rightarrow> Inl e | Inr d \<Rightarrow>
     (case py_get d ''Data'' (JArray []) of Inl e \<Rightarrow> Inl e | Inr records \<Rightarrow>
     (case py_iter records of Inl e \<Rightarrow> Inl e | Inr rows \<Rightarrow>
     (case pdf_ids_of rows of Inl e \<Rightarrow> Inl e | Inr pdf_ids \<Rightarrow>
        Inr (map (\<lambda>pdf_id. base_url @ ''/'' @ pdf_id) pdf_ids))))))"

text \<open>The \<open>except\<close> clause of line 240 names three classes.\<close>

fun caught_by_extract :: "py_error \<Rightarrow> bool" where
  "caught_by_extract (JSONDecodeError _) = True"
| "caught_by_extract (KeyError _) = True"
| "caught_by_extract (TypeError _) = True"
| "caught_by_extract _ = False"

definition extract_pdf_urls ::
  "env \<Rightarrow> string \<Rightarrow> string \<Rightarrow> world \<Rightarrow> (py_error + string list) \<times> world" where
  "extract_pdf_urls en json_string base_url w =
     (case extract_body (json_loads en) json_string base_url of
        Inr pdf_urls \<Rightarrow> (Inr pdf_urls, w)
      | Inl e \<Rightarrow>
          (if caught_by_extract e
           then (Inr [], print_line (''Error parsing JSON: '' @ error_message e) w)
           else (Inl e, w)))"

section \<open>The orchestrator (main.py, lines 246-305)\<close>

definition valid_urls_path :: "string list" where
  "valid_urls_path = [''page_1.json'', ''page_2.json'']"

definition base_url_const :: string where
  "base_url_const = ''https://kik-sds.thewercs.com/MyDocuments/DownloadSingleFile?content=''"

text \<open>Lines 254-258: the first configured path that is not a regular file, if any.\<close>

fun first_missing :: "filesystem \<Rightarrow> string list \<Rightarrow> string option" where
  "first_missing f [] = None"
| "first_missing f (path # paths) =
     (if \<not> check_file_exists f path then Some path else first_missing f paths)"

text \<open>\<open>"".join(s)\<close> on a string joins its characters.\<close>

definition join_chars :: "string \<Rightarrow> string" where
  "join_chars s = concat (map (\<lambda>c. [c]) s)"

text \<open>
  Lines 247-287, up to the list the loop runs over: \<open>Inr None\<close> is the early
  \<open>return\<close> of line 258, \<open>Inr (Some pdf_ids)\<close> the extracted URLs.
\<close>

definition main_extract :: "env \<Rightarrow> world \<Rightarrow> (py_error + string list option) \<times> world" where
  "main_extract en w =
     (case first_missing (fs w) valid_urls_path of
        Some path \<Rightarrow> (Inr None, print_line (''Error: '' @ path @ '' not found.'') w)
      | None \<Rightarrow>
     (case (if \<not> check_directory_exists (fs w) (output_directory en)
            then create_directory_at_path (output_directory en) w
            else (Inr (), w)) of
        (Inl e, w1) \<Rightarrow> (Inl e, w1)
      | (Inr _, w1) \<Rightarrow>
     (case setup_browser en (output_directory en) w1 of
        (Inl e, w2) \<Rightarrow> (Inl e, w2)
      | (Inr _, w2) \<Rightarrow>
     (case read_a_file (valid_urls_path ! 0) w2 of
        (Inl e, w3) \<Rightarrow> (Inl e, w3)
      | (Inr valid_urls_content_lines, w3) \<Rightarrow>
     (case extract_pdf_urls en (join_chars valid_urls_content_lines) base_url_const w3 of
        (Inl e, w4) \<Rightarrow> (Inl e, w4)
      | (Inr pdf_ids, w4) \<Rightarrow> (Inr (Some pdf_ids), w4))))))"

text \<open>Lines 290-302: the loop over the URLs.\<close>

fun pdf_loop :: "env \<Rightarrow> string \<Rightarrow> string list \<Rightarrow> world \<Rightarrow> (py_error + unit) \<times> world" where
  "pdf_loop en out_dir [] w = (Inr (), w)"
| "pdf_loop en out_dir (pdf_url # pdf_ids) w =
     (let w1 = print_line (''Processing URL: '' @ pdf_url) w;
          file_name = get_file_name_from_url pdf_url;
          full_file_path = os_path_join out_dir file_name
      in if check_file_exists (fs w1) full_file_path
         then pdf_loop en out_dir pdf_ids w1
         else (case download_pdf_if_valid en pdf_url w1 of
                 (Inl e, w2) \<Rightarrow> (Inl e, w2)
               | (Inr _, w2) \<Rightarrow> pdf_loop en out_dir pdf_ids w2))"

text \<open>Line 305.\<close>

definition do_quit :: "env \<Rightarrow> world \<Rightarrow> (py_error + unit) \<times> world" where
  "do_quit en w =
     (let w1 = record_call Quit w
      in case driver_quit en w of
           Some e \<Rightarrow> (Inl e, w1)
         | None \<Rightarrow> (Inr (), w1))"

definition main :: "env \<Rightarrow> world \<Rightarrow> (py_error + unit) \<times> world" where
  "main en w =
     (case main_extract en w of
        (Inl e, w1) \<Rightarrow> (Inl e, w1)
      | (Inr None, w1) \<Rightarrow> (Inr (), w1)
      | (Inr (Some pdf_ids), w1) \<Rightarrow>
     (case pdf_loop en (output_directory en) pdf_ids w1 of
        (Inl e, w2) \<Rightarrow> (Inl e, w2)
      | (Inr _, w2) \<Rightarrow> do_quit en w2))"

section \<open>Notions of the specification\<close>

text \<open>
  A qualifying row is a list whose first element is a string ending with \<open>_PDF\<close>;
  that element is the identifier of the row.
\<close>

definition qualifies :: "json \<Rightarrow> bool" where
  "qualifies row = (case row of JArray (JString s # _) \<Rightarrow> endswith s ''_PDF'' | _ \<Rightarrow> False)"

definition row_identifier :: "json \<Rightarrow> string" where
  "row_identifier row = (case row of JArray (JString s # _) \<Rightarrow> s | _ \<Rightarrow> [])"

text \<open>The value found by following keys through nested dicts, if every key is there.\<close>

fun field_path :: "json \<Rightarrow> string list \<Rightarrow> json option" where
  "field_path v [] = Some v"
| "field_path (JObject kvs) (k # ks) =
     (case map_of kvs k of None \<Rightarrow> None | Some v \<Rightarrow> field_path v ks)"
| "field_path _ (k # ks) = None"

text \<open>
  A log entry records a received response for a URL, with a status: its message text
  parses, the method is \<open>Network.responseReceived\<close>, the response URL is the requested
  one, and a status is present.
\<close>

definition response_received ::
  "(string \<Rightarrow> py_error + json) \<Rightarrow> string \<Rightarrow> json \<Rightarrow> json \<Rightarrow> bool" where
  "response_received loads target_url log_entry st =
     (case field_path log_entry [''message''] of
        Some (JString text) \<Rightarrow>
          (case loads text of
             Inr outer \<Rightarrow>
               field_path outer [''message'', ''method'']
                 = Some (JString ''Network.responseReceived'')
               \<and> field_path outer [''message'', ''params'', ''response'', ''url'']
                 = Some (JString target_url)
               \<and> field_path outer [''message'', ''params'', ''response'', ''status''] = Some st
           | Inl _ \<Rightarrow> False)
      | _ \<Rightarrow> False)"

text \<open>Every regular file of the first file system is a regular file of the second.\<close>

definition files_kept :: "filesystem \<Rightarrow> filesystem \<Rightarrow> bool" where
  "files_kept f f' = (\<forall>p. check_file_exists f p \<longrightarrow> check_file_exists f' p)"

text \<open>A browser whose navigations may add downloads but never remove a file.\<close>

definition browser_keeps_files :: "env \<Rightarrow> bool" where
  "browser_keeps_files en = (\<forall>u w f. driver_get en u w = Inr f \<longrightarrow> files_kept (fs w) f)"

text \<open>
  What a piece of the program adds to the record of browser calls, and to the printed
  lines: the old record is a prefix of the new one, and the added entries lie in a set.
\<close>

definition calls_extend :: "event set \<Rightarrow> world \<Rightarrow> world \<Rightarrow> bool" where
  "calls_extend A w w' = (\<exists>new. calls w' = calls w @ new \<and> set new \<subseteq> A)"

definition prints_extend :: "string set \<Rightarrow> world \<Rightarrow> world \<Rightarrow> bool" where
  "prints_extend L w w' = (\<exists>new. stdout w' = stdout w @ new \<and> set new \<subseteq> L)"

section \<open>Concrete environments for the examples\<close>

text \<open>
  A listing with the three rows of the specification's example, a parser that knows its
  text and three short texts more (what \<open>json.loads\<close> returns on each), and a browser
  that starts, loads every page, logs nothing and quits.
\<close>

definition sample_text :: string where
  \<open>sample_text = ''{"data": {"Data": [["a_PDF"], ["b_TXT"], ["c_PDF"]]}}''\<close>

definition empty_row_text :: string where
  \<open>empty_row_text = ''{"data": {"Data": [[]]}}''\<close>

definition null_data_text :: string where
  \<open>null_data_text = ''{"data": null}''\<close>

definition sample_rows :: "json list" where
  "sample_rows = [JArray [JString ''a_PDF''], JArray [JString ''b_TXT''], JArray [JString ''c_PDF'']]"

definition sample_listing :: json where
  "sample_listing = JObject [(''data'', JObject [(''Data'', JArray sample_rows)])]"

definition sample_env :: env where
  "sample_env =
     \<lparr>json_loads = (\<lambda>s. if s = sample_text then Inr sample_listing
                          else if s = ''[]'' then Inr (JArray [])
                          else if s = empty_row_text
                            then Inr (JObject [(''data'', JObject [(''Data'', JArray [JArray []])])])
                          else if s = null_data_text then Inr (JObject [(''data'', JNull)])
                          else Inl (JSONDecodeError ''Expecting value: line 1 column 1 (char 0)'')),
      script_dir = ''/app'',
      chrome_start = (\<lambda>d. None),
      driver_get = (\<lambda>u w. Inr (fs w)),
      driver_get_log = (\<lambda>w. Inr []),
      driver_quit = (\<lambda>w. None)\<rparr>"

definition sample_world :: world where
  "sample_world =
     \<lparr>fs = [''page_1.json'' \<mapsto> File sample_text, ''page_2.json'' \<mapsto> File ''{}''],
      stdout = [],
      calls = []\<rparr>"

text \<open>
  A performance log of two entries for the URL \<open>http://x/a_PDF\<close>: one whose message
  is not JSON, and one recording a received response with status 200.
\<close>

definition response_text :: string where
  \<open>response_text = ''{"message": {"method": "Network.responseReceived", "params": {"response": {"url": "http://x/a_PDF", "status": 200}}}}''\<close>

definition response_json :: json where
  "response_json =
     JObject [(''message'', JObject
       [(''method'', JString ''Network.responseReceived''),
        (''params'', JObject [(''response'', JObject
           [(''url'', JString ''http://x/a_PDF''), (''status'', JInt 200)])])])]"

definition broken_entry :: json where
  "broken_entry = JObject [(''level'', JString ''INFO''), (''message'', JString ''not json'')]"

definition response_entry :: json where
  "response_entry = JObject [(''level'', JString ''INFO''), (''message'', JString response_text)]"

definition logging_env :: env where
  "logging_env =
     sample_env
       \<lparr>json_loads := (\<lambda>s. if s = response_text then Inr response_json
                            else json_loads sample_env s),
        driver_get_log := (\<lambda>w. Inr [broken_entry, response_entry])\<rparr>"

text \<open>A browser in which every navigation but the one to the blank page raises.\<close>

definition failing_env :: env where
  "failing_env =
     sample_env
       \<lparr>driver_get := (\<lambda>u w. if u = ''about:blank'' then Inr (fs w)
                            else Inl (WebDriverException
                                   ''unknown error: net::ERR_NAME_NOT_RESOLVED''))\<rparr>"

text \<open>A world in which a regular file sits where the output directory should be.\<close>

definition blocked_world :: world where
  "blocked_world = sample_world\<lparr>fs := (fs sample_world)(''/app/PDFs'' \<mapsto> File [])\<rparr>"

text \<open>A world after an earlier run that left \<open>a_PDF\<close> in the output directory.\<close>

definition rerun_world :: world where
  "rerun_world =
     sample_world\<lparr>fs := (fs sample_world)(''/app/PDFs'' \<mapsto> Dir,
                                           ''/app/PDFs/a_PDF'' \<mapsto> File ''%PDF-1.4'')\<rparr>"

section \<open>Extraction: what is returned\<close>

lemma endswith_iff: "endswith s t \<longleftrightarrow> (\<exists>p. s = p @ t)"
proof
  assume "endswith s t"
  then have "s = take (length s - length t) s @ t"
    unfolding endswith_def by (metis append_take_drop_id)
  then show "\<exists>p. s = p @ t" ..
next
  assume "\<exists>p. s = p @ t"
  then show "endswith s t" by (auto simp: endswith_def)
qed

lemma row_pdf_id_Some:
  "row_pdf_id row = Inr (Some i) \<Longrightarrow> qualifies row \<and> row_identifier row = i"
  by (cases row rule: row_pdf_id.cases)
     (auto simp: qualifies_def row_identifier_def split: if_splits)

lemma row_pdf_id_None: "row_pdf_id row = Inr None \<Longrightarrow> \<not> qualifies row"
  by (cases row rule: row_pdf_id.cases) (auto simp: qualifies_def split: if_splits)

lemma row_pdf_id_Inl:
  "row_pdf_id row = Inl e \<Longrightarrow> e = IndexError ''list index out of range''"
  by (cases row rule: row_pdf_id.cases) (auto split: if_splits)

lemma pdf_ids_of_Inl:
  "pdf_ids_of rows = Inl e \<Longrightarrow> e = IndexError ''list index out of range''"
  by (induction rows) (auto split: sum.splits option.splits dest: row_pdf_id_Inl)

lemma pdf_ids_of_filter:
  "pdf_ids_of rows = Inr ids \<Longrightarrow> ids = map row_identifier (filter qualifies rows)"
proof (induction rows arbitrary: ids)
  case Nil
  then show ?case by simp
next
  case (Cons row rows)
  show ?case
  proof (cases "row_pdf_id row")
    case (Inl e)
    with Cons.prems show ?thesis by simp
  next
    case (Inr r)
    show ?thesis
    proof (cases r)
      case None
      with Inr Cons show ?thesis by (simp add: row_pdf_id_None)
    next
      case (Some i)
      with Inr Cons.prems obtain rest where r: "pdf_ids_of rows = Inr rest" "ids = i # rest"
        by (auto split: sum.splits)
      from Some Inr have "qualifies row" "row_identifier row = i"
        using row_pdf_id_Some by blast+
      with r Cons.IH show ?thesis by simp
    qed
  qed
qed

lemma qualifies_suffix: "qualifies row \<Longrightarrow> \<exists>p. row_identifier row = p @ ''_PDF''"
  by (auto simp: qualifies_def row_identifier_def endswith_iff split: json.splits list.splits)

lemma extract_body_urls:
  assumes "extract_body loads s b = Inr urls"
  shows "\<exists>rows. urls = map (\<lambda>row. b @ ''/'' @ row_identifier row) (filter qualifies rows)"
proof -
  from assms obtain rows ids where "pdf_ids_of rows = Inr ids"
    and "urls = map (\<lambda>pdf_id. b @ ''/'' @ pdf_id) ids"
    by (auto simp: extract_body_def split: sum.splits)
  then show ?thesis using pdf_ids_of_filter[of rows ids] by (auto simp: comp_def)
qed

lemma extract_body_listing:
  assumes "extract_body loads s b = Inr urls"
    and "loads s = Inr (JObject outer)"
    and "map_of outer ''data'' = Some (JObject d)"
    and "map_of d ''Data'' = Some (JArray rows)"
  shows "urls = map (\<lambda>row. b @ ''/'' @ row_identifier row) (filter qualifies rows)"
proof -
  from assms obtain ids where "pdf_ids_of rows = Inr ids"
    and "urls = map (\<lambda>pdf_id. b @ ''/'' @ pdf_id) ids"
    by (auto simp: extract_body_def split: sum.splits)
  then show ?thesis using pdf_ids_of_filter[of rows ids] by (auto simp: comp_def)
qed

lemma extract_pdf_urls_Inr:
  "extract_pdf_urls en s b w = (Inr urls, w') \<Longrightarrow>
     extract_body (json_loads en) s b = Inr urls \<or> urls = []"
  by (auto simp: extract_pdf_urls_def split: sum.splits if_splits)

lemma sample_extract:
  "extract_pdf_urls sample_env sample_text ''http://x'' sample_world
     = (Inr [''http://x/a_PDF'', ''http://x/c_PDF''], sample_world)"
  by (simp add: extract_pdf_urls_def extract_body_def sample_env_def sample_listing_def
      sample_rows_def endswith_def)

text \<open>
  Claim C1. Whenever \<open>extract_pdf_urls\<close> returns, every URL it returns is the base URL,
  a slash and an identifier ending with \<open>_PDF\<close>; and when the parsed text is an object
  whose \<open>data.Data\<close> is a list of rows, the result is exactly the URLs of the qualifying
  rows (lists whose first element is a string ending with \<open>_PDF\<close>), one per such row,
  in the order of the rows: nothing is reordered and nothing removed as a duplicate.
\<close>

theorem extract_pdf_urls_only_pdf_rows_in_order:
  assumes "extract_pdf_urls en json_string base w = (Inr urls, w')"
  shows "(\<forall>u\<in>set urls. \<exists>p. u = base @ ''/'' @ p @ ''_PDF'') \<and>
         (\<forall>outer d rows.
            json_loads en json_string = Inr (JObject outer) \<and>
            map_of outer ''data'' = Some (JObject d) \<and>
            map_of d ''Data'' = Some (JArray rows) \<longrightarrow>
            urls = map (\<lambda>row. base @ ''/'' @ row_identifier row) (filter qualifies rows))"
proof (intro conjI allI impI ballI)
  fix u assume u: "u \<in> set urls"
  from extract_pdf_urls_Inr[OF assms] u
  have b: "extract_body (json_loads en) json_string base = Inr urls" by auto
  from extract_body_urls[OF b] obtain rows where
    "urls = map (\<lambda>row. base @ ''/'' @ row_identifier row) (filter qualifies rows)" ..
  with u obtain row where "qualifies row" "u = base @ ''/'' @ row_identifier row" by auto
  then show "\<exists>p. u = base @ ''/'' @ p @ ''_PDF''" using qualifies_suffix by fastforce
next
  fix outer d rows
  assume h: "json_loads en json_string = Inr (JObject outer) \<and>
            map_of outer ''data'' = Some (JObject d) \<and>
            map_of d ''Data'' = Some (JArray rows)"
  then have "\<And>e. extract_body (json_loads en) json_string base = Inl e
      \<Longrightarrow> \<not> caught_by_extract e"
    by (auto simp: extract_body_def split: sum.splits dest: pdf_ids_of_Inl)
  with assms have b: "extract_body (json_loads en) json_string base = Inr urls"
    by (auto simp: extract_pdf_urls_def split: sum.splits if_splits)
  from h show "urls = map (\<lambda>row. base @ ''/'' @ row_identifier row) (filter qualifies rows)"
    using extract_body_listing[OF b] by blast
qed

theorem extract_pdf_urls_only_pdf_rows_in_order_witness:
  "extract_pdf_urls sample_env sample_text ''http://x'' sample_world
     = (Inr [''http://x/a_PDF'', ''http://x/c_PDF''], sample_world)
   \<and> [''http://x/a_PDF'', ''http://x/c_PDF'']
     = map (\<lambda>row. ''http://x'' @ ''/'' @ row_identifier row) (filter qualifies sample_rows)
   \<and> (\<exists>p. ''http://x/c_PDF'' = ''http://x'' @ ''/'' @ p @ ''_PDF'')"
proof -
  note t = extract_pdf_urls_only_pdf_rows_in_order[OF sample_extract]
  have l: "json_loads sample_env sample_text
             = Inr (JObject [(''data'', JObject [(''Data'', JArray sample_rows)])])"
    by (simp add: sample_env_def sample_listing_def)
  from t have "\<exists>p. ''http://x/c_PDF'' = ''http://x'' @ ''/'' @ p @ ''_PDF''" by simp
  moreover from t l have "[''http://x/a_PDF'', ''http://x/c_PDF'']
     = map (\<lambda>row. ''http://x'' @ ''/'' @ row_identifier row) (filter qualifies sample_rows)"
    by simp
  ultimately show ?thesis using sample_extract by simp
qed

section \<open>Extraction: what is raised\<close>

text \<open>
  Claim C2 says that no malformed or partially shaped input makes \<open>extract_pdf_urls\<close>
  raise. The handler of line 240 names \<open>JSONDecodeError\<close>, \<open>KeyError\<close> and
  \<open>TypeError\<close> only. On the text \<open>[]\<close> (a top-level list) and on \<open>{"data": null}\<close>
  the call of \<open>.get\<close> raises \<open>AttributeError\<close>, and on a listing with an empty row
  \<open>row[0]\<close> raises \<open>IndexError\<close>; all three reach the caller, and nothing is printed.
\<close>

theorem extract_pdf_urls_raises_on_misshaped_input:
  "extract_pdf_urls sample_env ''[]'' base w
     = (Inl (AttributeError
          (quoted ''list'' @ '' object has no attribute '' @ quoted ''get'')), w)
   \<and> extract_pdf_urls sample_env null_data_text base w
     = (Inl (AttributeError
          (quoted ''NoneType'' @ '' object has no attribute '' @ quoted ''get'')), w)
   \<and> extract_pdf_urls sample_env empty_row_text base w
     = (Inl (IndexError ''list index out of range''), w)"
  by (simp add: extract_pdf_urls_def extract_body_def sample_env_def sample_text_def
      empty_row_text_def null_data_text_def)

section \<open>The status read from the performance log\<close>

lemma field_path_step:
  "field_path v (k # ks) = (case py_subscript v k of Inr x \<Rightarrow> field_path x ks | Inl _ \<Rightarrow> None)"
  by (cases v) (auto split: option.splits)

lemma entry_status_iff:
  "entry_status loads t e = Inr (Some st) \<longleftrightarrow> response_received loads t e st"
proof (cases "py_subscript e ''message''")
  case (Inl a)
  then show ?thesis
    by (simp add: entry_status_def response_received_def field_path_step)
next
  case raw: (Inr raw)
  show ?thesis
  proof (cases "\<exists>m. raw = JString m")
    case False
    with raw show ?thesis
      by (cases raw) (simp_all add: entry_status_def response_received_def field_path_step
          loads_value_def)
  next
    case True
    then obtain m where m: "raw = JString m" ..
    show ?thesis
    proof (cases "loads m")
      case (Inl a)
      with raw m show ?thesis
        by (simp add: entry_status_def response_received_def field_path_step loads_value_def)
    next
      case outer: (Inr outer)
      show ?thesis
      proof (cases "py_subscript outer ''message''")
        case (Inl a)
        with raw m outer show ?thesis
          by (simp add: entry_status_def response_received_def field_path_step loads_value_def)
      next
        case message: (Inr message)
        have head: "entry_status loads t e =
          (case py_subscript message ''method'' of Inl e \<Rightarrow> Inl e | Inr method \<Rightarrow>
           if method = JString ''Network.responseReceived'' then
            (case py_subscript message ''params'' of Inl e \<Rightarrow> Inl e | Inr params \<Rightarrow>
            (case py_subscript params ''response'' of Inl e \<Rightarrow> Inl e | Inr response \<Rightarrow>
            (case py_subscript response ''url'' of Inl e \<Rightarrow> Inl e | Inr u \<Rightarrow>
               if u = JString t then
                 (case py_subscript response ''status'' of
                    Inl e \<Rightarrow> Inl e
                  | Inr st \<Rightarrow> Inr (Some st))
               else Inr None)))
           else Inr None)"
          using raw m outer message by (simp add: entry_status_def loads_value_def)
        have spec: "response_received loads t e st \<longleftrightarrow>
           field_path message [''method''] = Some (JString ''Network.responseReceived'')
           \<and> field_path message [''params'', ''response'', ''url''] = Some (JString t)
           \<and> field_path message [''params'', ''response'', ''status''] = Some st"
          using raw m outer message
          by (simp add: response_received_def field_path_step[of _ "''message''"])
        show ?thesis
        proof (cases "py_subscript message ''method''")
          case (Inl a)
          then show ?thesis unfolding head spec by (simp add: field_path_step)
        next
          case meth: (Inr mv)
          show ?thesis
          proof (cases "py_subscript message ''params''")
            case (Inl a)
            with meth show ?thesis unfolding head spec by (simp add: field_path_step)
          next
            case prm: (Inr pv)
            show ?thesis
            proof (cases "py_subscript pv ''response''")
              case (Inl a)
              with meth prm show ?thesis unfolding head spec
                by (simp add: field_path_step)
            next
              case response: (Inr response)
              show ?thesis
              proof (cases "py_subscript response ''url''")
                case (Inl a)
                with meth prm response show ?thesis unfolding head spec
                  by (simp add: field_path_step)
              next
                case u: (Inr u)
                show ?thesis
                proof (cases "py_subscript response ''status''")
                  case (Inl a)
                  with meth prm response u show ?thesis unfolding head spec
                    by (simp add: field_path_step)
                next
                  case (Inr s)
                  with meth prm response u show ?thesis unfolding head spec
                    by (auto simp add: field_path_step)
                qed
              qed
            qed
          qed
        qed
      qed
    qed
  qed
qed


lemma scan_logs_no_match_prefix:
  "\<forall>x\<in>set pre. \<forall>s. \<not> response_received loads t x s \<Longrightarrow>
     scan_logs loads t (pre @ rest) = scan_logs loads t rest"
  by (induction pre) (auto simp: entry_status_iff[symmetric] split: sum.splits option.splits)

lemma scan_logs_hit:
  "response_received loads t e st \<Longrightarrow> scan_logs loads t (e # post) = st"
  by (simp add: entry_status_iff[symmetric])

lemma scan_logs_drop_raising:
  "entry_status loads t e = Inl err \<Longrightarrow>
     scan_logs loads t (pre @ e # post) = scan_logs loads t (pre @ post)"
  by (induction pre) (auto split: sum.splits option.splits)

lemma get_status_captured:
  "capture_logs en t w = (Inr logs, w') \<Longrightarrow>
     get_http_status_code_from_browser en t w = (Inr (scan_logs (json_loads en) t logs), w')"
  by (simp add: get_http_status_code_from_browser_def)

text \<open>
  Claim C8. Let the two navigations and the reading of the log succeed, with the log
  \<open>logs\<close>. If an entry records a received response for the target URL, with a status,
  and no entry before it does, \<open>get_http_status_code_from_browser\<close> returns that
  status. If no entry does, it returns \<open>None\<close>. An entry on which the body of the
  \<open>try\<close> raises (its message is not JSON, a field is missing, a value has the wrong
  type) changes nothing: the result is that of the scan over the log without it.
\<close>

theorem status_is_first_matching_response:
  assumes "capture_logs en target_url w = (Inr logs, w')"
  shows "(logs = pre @ e # post \<and>
            (\<forall>x\<in>set pre. \<forall>s. \<not> response_received (json_loads en) target_url x s) \<and>
            response_received (json_loads en) target_url e st
          \<longrightarrow> get_http_status_code_from_browser en target_url w = (Inr st, w'))
       \<and> ((\<forall>x\<in>set logs. \<forall>s. \<not> response_received (json_loads en) target_url x s)
          \<longrightarrow> get_http_status_code_from_browser en target_url w = (Inr JNull, w'))
       \<and> (logs = pre @ e # post \<and> entry_status (json_loads en) target_url e = Inl err
          \<longrightarrow> get_http_status_code_from_browser en target_url w
                = (Inr (scan_logs (json_loads en) target_url (pre @ post)), w'))"
proof (intro conjI impI)
  assume "logs = pre @ e # post \<and>
            (\<forall>x\<in>set pre. \<forall>s. \<not> response_received (json_loads en) target_url x s) \<and>
            response_received (json_loads en) target_url e st"
  then show "get_http_status_code_from_browser en target_url w = (Inr st, w')"
    using get_status_captured[OF assms] scan_logs_no_match_prefix[of pre "json_loads en" target_url "e # post"]
      scan_logs_hit[of "json_loads en" target_url e st post] by simp
next
  assume "\<forall>x\<in>set logs. \<forall>s. \<not> response_received (json_loads en) target_url x s"
  then show "get_http_status_code_from_browser en target_url w = (Inr JNull, w')"
    using get_status_captured[OF assms] scan_logs_no_match_prefix[of logs "json_loads en" target_url "[]"]
    by simp
next
  assume "logs = pre @ e # post \<and> entry_status (json_loads en) target_url e = Inl err"
  then show "get_http_status_code_from_browser en target_url w
                = (Inr (scan_logs (json_loads en) target_url (pre @ post)), w')"
    using get_status_captured[OF assms] scan_logs_drop_raising by simp
qed

section \<open>The status gate of the download\<close>

lemma py_eq_int_200: "py_eq_int st 200 \<longleftrightarrow> st = JInt 200 \<or> st = JFloat (Finite 200)"
  by (cases "(st, 200::int)" rule: py_eq_int.cases) auto

text \<open>
  Claim C7. Whenever \<open>get_http_status_code_from_browser\<close> returns a status,
  \<open>download_pdf_if_valid\<close> returns, in the same world, the truth value of "the status
  equals 200": true on the integer 200 (and on the float 200.0, which Python's \<open>==\<close>
  equates with it), false on 404, 403, any other value and \<open>None\<close>.
\<close>

theorem download_true_iff_status_200:
  assumes "get_http_status_code_from_browser en pdf_url w = (Inr st, w1)"
  shows "download_pdf_if_valid en pdf_url w
           = (Inr (st = JInt 200 \<or> st = JFloat (Finite 200)), w1)"
  using assms by (simp add: download_pdf_if_valid_def py_eq_int_200)

section \<open>A regular file at the output path\<close>

lemma first_missing_none:
  "check_file_exists f ''page_1.json'' \<Longrightarrow> check_file_exists f ''page_2.json'' \<Longrightarrow>
     first_missing f valid_urls_path = None"
  by (simp add: valid_urls_path_def)

text \<open>
  Claim C10. \<open>check_directory_exists\<close> is true of any existing path. So when both
  listing files exist and a regular file occupies the output path, \<open>main\<close> does not
  call \<open>create_directory_at_path\<close>; it goes on to \<open>setup_browser\<close>, where
  \<open>os.makedirs(exist_ok=True)\<close> raises \<open>FileExistsError\<close> before any browser is
  started: the world is left as it was.
\<close>

theorem file_at_output_path_makes_setup_raise:
  assumes "check_file_exists (fs w) ''page_1.json''"
    and "check_file_exists (fs w) ''page_2.json''"
    and "fs w (output_directory en) = Some (File c)"
  shows "check_directory_exists (fs w) (output_directory en) \<and>
         main en w = (Inl (FileExistsError
                       (''[Errno 17] File exists: '' @ quoted (output_directory en))), w)"
  using assms
  by (simp add: check_directory_exists_def main_def main_extract_def first_missing_none
      setup_browser_def os_makedirs_exist_ok_def)


lemma logging_capture:
  "capture_logs logging_env u sample_world
     = (Inr [broken_entry, response_entry],
        sample_world\<lparr>calls := [Get ''about:blank'', Get u, GetLog]\<rparr>)"
  by (simp add: capture_logs_def do_get_def do_get_log_def record_call_def logging_env_def
      sample_env_def sample_world_def)

lemma response_entry_received:
  "response_received (json_loads logging_env) ''http://x/a_PDF'' response_entry (JInt 200)"
  by (simp add: response_received_def response_entry_def logging_env_def response_json_def)

lemma broken_entry_raises:
  "entry_status (json_loads logging_env) u broken_entry
     = Inl (JSONDecodeError ''Expecting value: line 1 column 1 (char 0)'')"
  by (simp add: entry_status_def broken_entry_def loads_value_def logging_env_def
      sample_env_def response_text_def sample_text_def empty_row_text_def null_data_text_def)

lemma broken_entry_not_received:
  "\<not> response_received (json_loads logging_env) u broken_entry s"
  using broken_entry_raises[of u] by (simp add: entry_status_iff[symmetric])

lemma response_entry_other_url:
  "\<not> response_received (json_loads logging_env) ''http://x/c_PDF'' response_entry s"
  by (simp add: response_received_def response_entry_def logging_env_def response_json_def)

lemma logging_status:
  "get_http_status_code_from_browser logging_env ''http://x/a_PDF'' sample_world
     = (Inr (JInt 200),
        sample_world\<lparr>calls := [Get ''about:blank'', Get ''http://x/a_PDF'', GetLog]\<rparr>)"
  using get_status_captured[OF logging_capture, of "''http://x/a_PDF''"]
    scan_logs_no_match_prefix[of "[broken_entry]" "json_loads logging_env"
      "''http://x/a_PDF''" "[response_entry]"]
    scan_logs_hit[OF response_entry_received, of "[]"] broken_entry_not_received
  by simp

theorem status_is_first_matching_response_witness:
  "capture_logs logging_env ''http://x/a_PDF'' sample_world
     = (Inr [broken_entry, response_entry],
        sample_world\<lparr>calls := [Get ''about:blank'', Get ''http://x/a_PDF'', GetLog]\<rparr>)
   \<and> response_received (json_loads logging_env) ''http://x/a_PDF'' response_entry (JInt 200)
   \<and> get_http_status_code_from_browser logging_env ''http://x/a_PDF'' sample_world
     = (Inr (JInt 200),
        sample_world\<lparr>calls := [Get ''about:blank'', Get ''http://x/a_PDF'', GetLog]\<rparr>)
   \<and> get_http_status_code_from_browser logging_env ''http://x/c_PDF'' sample_world
     = (Inr JNull,
        sample_world\<lparr>calls := [Get ''about:blank'', Get ''http://x/c_PDF'', GetLog]\<rparr>)
   \<and> entry_status (json_loads logging_env) ''http://x/a_PDF'' broken_entry
     = Inl (JSONDecodeError ''Expecting value: line 1 column 1 (char 0)'')
   \<and> get_http_status_code_from_browser logging_env ''http://x/a_PDF'' sample_world
     = (Inr (scan_logs (json_loads logging_env) ''http://x/a_PDF'' ([] @ [response_entry])),
        sample_world\<lparr>calls := [Get ''about:blank'', Get ''http://x/a_PDF'', GetLog]\<rparr>)"
proof -
  note a = status_is_first_matching_response[OF logging_capture[of "''http://x/a_PDF''"],
      of "[broken_entry]" response_entry "[]" "JInt 200"]
  note b = status_is_first_matching_response[OF logging_capture[of "''http://x/c_PDF''"]]
  note c = status_is_first_matching_response[OF logging_capture[of "''http://x/a_PDF''"],
      of "[]" broken_entry "[response_entry]" _
         "JSONDecodeError ''Expecting value: line 1 column 1 (char 0)''"]
  have 1: "get_http_status_code_from_browser logging_env ''http://x/a_PDF'' sample_world
     = (Inr (JInt 200),
        sample_world\<lparr>calls := [Get ''about:blank'', Get ''http://x/a_PDF'', GetLog]\<rparr>)"
    using a response_entry_received broken_entry_not_received by simp
  have 2: "get_http_status_code_from_browser logging_env ''http://x/c_PDF'' sample_world
     = (Inr JNull,
        sample_world\<lparr>calls := [Get ''about:blank'', Get ''http://x/c_PDF'', GetLog]\<rparr>)"
    using b response_entry_other_url broken_entry_not_received by simp
  have 3: "get_http_status_code_from_browser logging_env ''http://x/a_PDF'' sample_world
     = (Inr (scan_logs (json_loads logging_env) ''http://x/a_PDF'' ([] @ [response_entry])),
        sample_world\<lparr>calls := [Get ''about:blank'', Get ''http://x/a_PDF'', GetLog]\<rparr>)"
    using c broken_entry_raises by simp
  show ?thesis
    using 1 2 3 logging_capture response_entry_received broken_entry_raises by blast
qed

theorem download_true_iff_status_200_witness:
  "get_http_status_code_from_browser logging_env ''http://x/a_PDF'' sample_world
     = (Inr (JInt 200),
        sample_world\<lparr>calls := [Get ''about:blank'', Get ''http://x/a_PDF'', GetLog]\<rparr>)
   \<and> download_pdf_if_valid logging_env ''http://x/a_PDF'' sample_world
     = (Inr True,
        sample_world\<lparr>calls := [Get ''about:blank'', Get ''http://x/a_PDF'', GetLog]\<rparr>)"
  using download_true_iff_status_200[OF logging_status] logging_status by simp

theorem file_at_output_path_makes_setup_raise_witness:
  "check_file_exists (fs blocked_world) ''page_1.json''
   \<and> check_file_exists (fs blocked_world) ''page_2.json''
   \<and> fs blocked_world (output_directory sample_env) = Some (File [])
   \<and> check_directory_exists (fs blocked_world) (output_directory sample_env)
   \<and> main sample_env blocked_world
       = (Inl (FileExistsError (''[Errno 17] File exists: '' @ quoted ''/app/PDFs'')),
          blocked_world)"
proof -
  have 1: "check_file_exists (fs blocked_world) ''page_1.json''"
    and 2: "check_file_exists (fs blocked_world) ''page_2.json''"
    and 3: "fs blocked_world (output_directory sample_env) = Some (File [])"
    and 4: "output_directory sample_env = ''/app/PDFs''"
    by (simp_all add: blocked_world_def sample_world_def check_file_exists_def
        output_directory_def sample_env_def)
  from file_at_output_path_makes_setup_raise[OF 1 2 3] 1 2 3 4 show ?thesis by simp
qed

lemma calls_extend_refl: "calls_extend A w w"
  by (simp add: calls_extend_def)

lemma calls_extend_trans:
  "calls_extend A w w1 \<Longrightarrow> calls_extend B w1 w2 \<Longrightarrow> calls_extend (A \<union> B) w w2"
  unfolding calls_extend_def
proof -
  assume "\<exists>new. calls w1 = calls w @ new \<and> set new \<subseteq> A"
    and "\<exists>new. calls w2 = calls w1 @ new \<and> set new \<subseteq> B"
  then obtain n1 n2 where "calls w1 = calls w @ n1" "set n1 \<subseteq> A"
    "calls w2 = calls w1 @ n2" "set n2 \<subseteq> B" by blast
  then have "calls w2 = calls w @ (n1 @ n2) \<and> set (n1 @ n2) \<subseteq> A \<union> B" by auto
  then show "\<exists>new. calls w2 = calls w @ new \<and> set new \<subseteq> A \<union> B" ..
qed

lemma calls_extend_mono: "calls_extend A w w' \<Longrightarrow> A \<subseteq> B \<Longrightarrow> calls_extend B w w'"
  unfolding calls_extend_def by blast

lemma calls_extend_same: "calls w' = calls w \<Longrightarrow> calls_extend A w w'"
  by (simp add: calls_extend_def)

lemma calls_extend_one: "calls w' = calls w @ [e] \<Longrightarrow> e \<in> A \<Longrightarrow> calls_extend A w w'"
  by (simp add: calls_extend_def)

lemma prints_extend_refl: "prints_extend L w w"
  by (simp add: prints_extend_def)

lemma prints_extend_trans:
  "prints_extend A w w1 \<Longrightarrow> prints_extend B w1 w2 \<Longrightarrow> prints_extend (A \<union> B) w w2"
  unfolding prints_extend_def
proof -
  assume "\<exists>new. stdout w1 = stdout w @ new \<and> set new \<subseteq> A"
    and "\<exists>new. stdout w2 = stdout w1 @ new \<and> set new \<subseteq> B"
  then obtain n1 n2 where "stdout w1 = stdout w @ n1" "set n1 \<subseteq> A"
    "stdout w2 = stdout w1 @ n2" "set n2 \<subseteq> B" by blast
  then have "stdout w2 = stdout w @ (n1 @ n2) \<and> set (n1 @ n2) \<subseteq> A \<union> B" by auto
  then show "\<exists>new. stdout w2 = stdout w @ new \<and> set new \<subseteq> A \<union> B" ..
qed

lemma prints_extend_mono: "prints_extend A w w' \<Longrightarrow> A \<subseteq> B \<Longrightarrow> prints_extend B w w'"
  unfolding prints_extend_def by blast

lemma prints_extend_same: "stdout w' = stdout w \<Longrightarrow> prints_extend L w w'"
  by (simp add: prints_extend_def)

lemma prints_extend_one: "stdout w' = stdout w @ [l] \<Longrightarrow> l \<in> L \<Longrightarrow> prints_extend L w w'"
  by (simp add: prints_extend_def)

lemma files_kept_refl: "files_kept f f"
  by (simp add: files_kept_def)

lemma files_kept_trans: "files_kept f g \<Longrightarrow> files_kept g h \<Longrightarrow> files_kept f h"
  by (simp add: files_kept_def)

lemma files_kept_new_dir: "f p = None \<Longrightarrow> files_kept f (f(p \<mapsto> Dir))"
  by (auto simp: files_kept_def check_file_exists_def)

section \<open>What each step changes\<close>

lemma do_get_frame:
  assumes "do_get en u w = (r, w')"
  shows "stdout w' = stdout w" and "calls w' = calls w @ [Get u]"
    and "browser_keeps_files en \<Longrightarrow> files_kept (fs w) (fs w')"
  using assms
  by (auto simp: do_get_def Let_def record_call_def browser_keeps_files_def files_kept_refl
      split: sum.splits)

lemma do_get_log_frame:
  assumes "do_get_log en w = (r, w')"
  shows "stdout w' = stdout w" and "calls w' = calls w @ [GetLog]" and "fs w' = fs w"
  using assms by (auto simp: do_get_log_def Let_def record_call_def split: sum.splits)

lemma capture_logs_frame:
  assumes "capture_logs en u w = (r, w')"
  shows "stdout w' = stdout w"
    and "calls_extend {Get ''about:blank'', Get u, GetLog} w w'"
    and "browser_keeps_files en \<Longrightarrow> files_kept (fs w) (fs w')"
proof -
  obtain r1 w1 where g1: "do_get en ''about:blank'' w = (r1, w1)" by fastforce
  obtain r2 w2 where g2: "do_get en u w1 = (r2, w2)" by fastforce
  obtain r3 w3 where g3: "do_get_log en w2 = (r3, w3)" by fastforce
  note f1 = do_get_frame[OF g1] and f2 = do_get_frame[OF g2] and f3 = do_get_log_frame[OF g3]
  from assms g1 g2 g3 have cases: "w' = w1 \<or> w' = w2 \<or> w' = w3"
    by (auto simp: capture_logs_def split: sum.splits)
  from cases f1 f2 f3 show "stdout w' = stdout w" by auto
  from cases f1 f2 f3 show "calls_extend {Get ''about:blank'', Get u, GetLog} w w'"
    by (auto simp: calls_extend_def)
  assume k: "browser_keeps_files en"
  from cases f1(3)[OF k] f2(3)[OF k] f3(3) show "files_kept (fs w) (fs w')"
    by (auto intro: files_kept_trans)
qed

lemma download_frame:
  assumes "download_pdf_if_valid en u w = (r, w')"
  shows "stdout w' = stdout w"
    and "calls_extend {Get ''about:blank'', Get u, GetLog} w w'"
    and "browser_keeps_files en \<Longrightarrow> files_kept (fs w) (fs w')"
proof -
  obtain r1 w1 where c: "capture_logs en u w = (r1, w1)" by fastforce
  with assms have "w' = w1"
    by (auto simp: download_pdf_if_valid_def get_http_status_code_from_browser_def
        split: sum.splits if_splits)
  with capture_logs_frame[OF c] show "stdout w' = stdout w"
    and "calls_extend {Get ''about:blank'', Get u, GetLog} w w'"
    and "browser_keeps_files en \<Longrightarrow> files_kept (fs w) (fs w')" by auto
qed

lemma pdf_loop_Cons:
  "pdf_loop en d (u # us) w =
     (if check_file_exists (fs w) (os_path_join d (get_file_name_from_url u))
      then pdf_loop en d us (print_line (''Processing URL: '' @ u) w)
      else (case download_pdf_if_valid en u (print_line (''Processing URL: '' @ u) w) of
              (Inl e, w2) \<Rightarrow> (Inl e, w2)
            | (Inr _, w2) \<Rightarrow> pdf_loop en d us w2))"
  by (simp add: Let_def print_line_def)

declare pdf_loop.simps(2) [simp del]

lemma pdf_loop_prints:
  "pdf_loop en d urls w = (r, w') \<Longrightarrow>
     prints_extend {l. \<exists>u. l = ''Processing URL: '' @ u} w w'"
proof (induction urls arbitrary: w)
  case Nil
  then show ?case by (simp add: prints_extend_refl)
next
  case (Cons u us)
  let ?L = "{l. \<exists>u. l = ''Processing URL: '' @ u}"
  let ?w1 = "print_line (''Processing URL: '' @ u) w"
  have p1: "prints_extend ?L w ?w1"
    by (rule prints_extend_one[of _ _ "''Processing URL: '' @ u"]) (auto simp: print_line_def)
  show ?case
  proof (cases "check_file_exists (fs w) (os_path_join d (get_file_name_from_url u))")
    case True
    with Cons.prems have "pdf_loop en d us ?w1 = (r, w')" by (simp add: pdf_loop_Cons)
    from prints_extend_trans[OF p1 Cons.IH[OF this]] show ?thesis by simp
  next
    case False
    obtain r2 w2 where dl: "download_pdf_if_valid en u ?w1 = (r2, w2)" by fastforce
    have p2: "prints_extend ?L ?w1 w2"
      using download_frame(1)[OF dl] by (rule prints_extend_same)
    show ?thesis
    proof (cases r2)
      case (Inl e)
      with False dl Cons.prems have "w' = w2" by (simp add: pdf_loop_Cons)
      with prints_extend_trans[OF p1 p2] show ?thesis by simp
    next
      case (Inr b)
      with False dl Cons.prems have "pdf_loop en d us w2 = (r, w')"
        by (simp add: pdf_loop_Cons)
      from prints_extend_trans[OF prints_extend_trans[OF p1 p2] Cons.IH[OF this]]
      show ?thesis by simp
    qed
  qed
qed

lemma pdf_loop_skips:
  assumes "browser_keeps_files en \<or> f0 = (\<lambda>p. None)"
  shows "pdf_loop en d urls w = (r, w') \<Longrightarrow> files_kept f0 (fs w) \<Longrightarrow>
     calls_extend ({Get ''about:blank'', GetLog} \<union>
        Get ` {u \<in> set urls. \<not> check_file_exists f0 (os_path_join d (get_file_name_from_url u))})
        w w'"
proof (induction urls arbitrary: w)
  case Nil
  then show ?case by (simp add: calls_extend_refl)
next
  case (Cons u us)
  let ?A = "\<lambda>us. {Get ''about:blank'', GetLog} \<union>
        Get ` {u \<in> set us. \<not> check_file_exists f0 (os_path_join d (get_file_name_from_url u))}"
  let ?w1 = "print_line (''Processing URL: '' @ u) w"
  have w1: "calls ?w1 = calls w" "fs ?w1 = fs w" by (simp_all add: print_line_def)
  have mono: "?A us \<subseteq> ?A (u # us)" by auto
  have kept_any: "\<And>f. files_kept f0 f" if "f0 = (\<lambda>p. None)"
    using that by (simp add: files_kept_def check_file_exists_def)
  show ?case
  proof (cases "check_file_exists (fs w) (os_path_join d (get_file_name_from_url u))")
    case True
    with Cons.prems have "pdf_loop en d us ?w1 = (r, w')" by (simp add: pdf_loop_Cons)
    from Cons.IH[OF this] Cons.prems(2) w1 have "calls_extend (?A us) ?w1 w'" by simp
    then have "calls_extend (?A us) w w'" using w1 by (simp add: calls_extend_def)
    then show ?thesis using mono by (rule calls_extend_mono)
  next
    case False
    with Cons.prems(2) have nof: "\<not> check_file_exists f0 (os_path_join d (get_file_name_from_url u))"
      by (auto simp: files_kept_def)
    obtain r2 w2 where dl: "download_pdf_if_valid en u ?w1 = (r2, w2)" by fastforce
    have "calls_extend {Get ''about:blank'', Get u, GetLog} ?w1 w2"
      by (rule download_frame(2)[OF dl])
    then have c2: "calls_extend (?A (u # us)) w w2"
      using nof w1 by (auto simp: calls_extend_def)
    have k2: "files_kept f0 (fs w2)"
    proof (cases "browser_keeps_files en")
      case True
      from download_frame(3)[OF dl True] w1 Cons.prems(2) show ?thesis
        by (auto intro: files_kept_trans)
    next
      case False
      with assms show ?thesis using kept_any by blast
    qed
    show ?thesis
    proof (cases r2)
      case (Inl e)
      with False dl Cons.prems have "w' = w2" by (simp add: pdf_loop_Cons)
      with c2 show ?thesis by simp
    next
      case (Inr b)
      with False dl Cons.prems have "pdf_loop en d us w2 = (r, w')"
        by (simp add: pdf_loop_Cons)
      from Cons.IH[OF this k2] have "calls_extend (?A us) w2 w'" .
      from calls_extend_trans[OF c2 this] show ?thesis using mono
        by (auto elim: calls_extend_mono)
    qed
  qed
qed

lemma pdf_loop_calls:
  assumes "pdf_loop en d urls w = (r, w')"
  shows "calls_extend ({Get ''about:blank'', GetLog} \<union> Get ` set urls) w w'"
proof -
  have "files_kept (\<lambda>p. None) (fs w)" by (simp add: files_kept_def check_file_exists_def)
  from pdf_loop_skips[of en "\<lambda>p. None", OF _ assms this]
  show ?thesis by (auto elim: calls_extend_mono)
qed

lemma first_missing_cases:
  "first_missing f valid_urls_path =
     (if \<not> check_file_exists f ''page_1.json'' then Some ''page_1.json''
      else if \<not> check_file_exists f ''page_2.json'' then Some ''page_2.json''
      else None)"
  by (simp add: valid_urls_path_def)

lemma prepare_dir_frame:
  assumes "(if \<not> check_directory_exists (fs w) d then create_directory_at_path d w
            else (Inr (), w)) = (r, w')"
  shows "stdout w' = stdout w" and "calls w' = calls w" and "files_kept (fs w) (fs w')"
    and "\<And>p. p \<noteq> d \<Longrightarrow> fs w' p = fs w p"
  using assms
  by (auto simp: create_directory_at_path_def check_directory_exists_def files_kept_refl
      files_kept_new_dir split: if_splits option.splits)

lemma setup_browser_frame:
  assumes "setup_browser en d w = (r, w')"
  shows "stdout w' = stdout w" and "calls_extend {Launch d} w w'"
    and "files_kept (fs w) (fs w')" and "\<And>p. p \<noteq> d \<Longrightarrow> fs w' p = fs w p"
  using assms
  by (auto simp: setup_browser_def os_makedirs_exist_ok_def Let_def record_call_def
      calls_extend_def files_kept_refl files_kept_new_dir
      split: option.splits node.splits)

lemma read_a_file_frame: "read_a_file p w = (r, w') \<Longrightarrow> w' = w"
  by (auto simp: read_a_file_def split: option.splits node.splits)

lemma extract_pdf_urls_frame:
  assumes "extract_pdf_urls en s b w = (r, w')"
  shows "fs w' = fs w" and "calls w' = calls w"
    and "prints_extend {l. \<exists>m. l = ''Error parsing JSON: '' @ m} w w'"
  using assms
  by (auto simp: extract_pdf_urls_def print_line_def prints_extend_def
      split: sum.splits if_splits)

lemma main_extract_frame:
  assumes ok: "first_missing (fs w) valid_urls_path = None"
    and run: "main_extract en w = (r, w')"
  shows "files_kept (fs w) (fs w')"
    and "calls_extend {Launch (output_directory en)} w w'"
    and "prints_extend {l. \<exists>m. l = ''Error parsing JSON: '' @ m} w w'"
    and "r \<noteq> Inr None"
proof -
  let ?d = "output_directory en"
  obtain r1 w1 where s1: "(if \<not> check_directory_exists (fs w) ?d
      then create_directory_at_path ?d w else (Inr (), w)) = (r1, w1)" by fastforce
  obtain r2 w2 where s2: "setup_browser en ?d w1 = (r2, w2)" by fastforce
  obtain r3 w3 where s3: "read_a_file (valid_urls_path ! 0) w2 = (r3, w3)" by fastforce
  obtain r4 w4 where s4: "extract_pdf_urls en
      (join_chars (case r3 of Inr c \<Rightarrow> c | Inl _ \<Rightarrow> [])) base_url_const w3 = (r4, w4)"
    by fastforce
  note f1 = prepare_dir_frame[OF s1] and f2 = setup_browser_frame[OF s2]
    and f3 = read_a_file_frame[OF s3] and f4 = extract_pdf_urls_frame[OF s4]
  from run ok s1 s2 s3 s4 have cases: "w' = w1 \<or> w' = w2 \<or> w' = w3 \<or> w' = w4"
    and res: "r \<noteq> Inr None"
    by (auto simp: main_extract_def split: sum.splits)
  from res show "r \<noteq> Inr None" .
  have k: "files_kept (fs w) (fs w1)" "files_kept (fs w) (fs w2)" "files_kept (fs w) (fs w3)"
    "files_kept (fs w) (fs w4)"
    using f1(3) f2(3) f3 f4(1) by (auto intro: files_kept_trans)
  with cases show "files_kept (fs w) (fs w')" by auto
  have c1: "calls_extend {Launch ?d} w w1" using f1(2) by (rule calls_extend_same)
  have c2: "calls_extend {Launch ?d} w w2" using calls_extend_trans[OF c1 f2(2)] by simp
  have c3: "calls_extend {Launch ?d} w w3" using c2 f3 by simp
  have c4: "calls_extend {Launch ?d} w w4" using c3 f4(2) by (simp add: calls_extend_def)
  from cases c1 c2 c3 c4 show "calls_extend {Launch ?d} w w'" by auto
  let ?L = "{l. \<exists>m. l = ''Error parsing JSON: '' @ m}"
  have p3: "stdout w3 = stdout w" "stdout w2 = stdout w" "stdout w1 = stdout w"
    using f1(1) f2(1) f3 by auto
  then have p123: "prints_extend ?L w w1" "prints_extend ?L w w2" "prints_extend ?L w w3"
    by (auto intro: prints_extend_same)
  from f4(3) p3(1) have "prints_extend ?L w w4" by (simp add: prints_extend_def)
  with cases p123 show "prints_extend ?L w w'" by auto
qed

lemma main_extract_missing:
  "first_missing (fs w) valid_urls_path = Some p \<Longrightarrow>
     main en w = (Inr (), w\<lparr>stdout := stdout w @ [''Error: '' @ p @ '' not found.'']\<rparr>)"
  by (simp add: main_def main_extract_def print_line_def)

lemma do_quit_frame:
  assumes "do_quit en w = (r, w')"
  shows "stdout w' = stdout w" and "calls w' = calls w @ [Quit]" and "fs w' = fs w"
    and "r = Inr () \<or> driver_quit en w \<noteq> None"
  using assms by (auto simp: do_quit_def Let_def record_call_def split: option.splits)

text \<open>The three ways through main once the listing files are there.\<close>

lemma main_cases:
  assumes ok: "first_missing (fs w) valid_urls_path = None"
    and run: "main en w = (r, w')"
  obtains (raised_early) e where "main_extract en w = (Inl e, w')" "r = Inl e"
  | (raised_in_loop) urls w1 e where "main_extract en w = (Inr (Some urls), w1)"
      "pdf_loop en (output_directory en) urls w1 = (Inl e, w')" "r = Inl e"
  | (reached_quit) urls w1 w2 where "main_extract en w = (Inr (Some urls), w1)"
      "pdf_loop en (output_directory en) urls w1 = (Inr (), w2)" "do_quit en w2 = (r, w')"
proof -
  obtain r0 w1 where m: "main_extract en w = (r0, w1)" by fastforce
  from main_extract_frame(4)[OF ok m] have nn: "r0 \<noteq> Inr None" .
  show thesis
  proof (cases r0)
    case (Inl e)
    with m run have "w' = w1" "r = Inl e" by (auto simp: main_def)
    with m Inl show thesis using raised_early by simp
  next
    case (Inr v)
    with nn obtain urls where o: "r0 = Inr (Some urls)" by (cases v) auto
    obtain r2 w2 where l: "pdf_loop en (output_directory en) urls w1 = (r2, w2)"
      by fastforce
    show thesis
    proof (cases r2)
      case (Inl e)
      with m o l run have "w' = w2" "r = Inl e" by (auto simp: main_def)
      with m o l Inl show thesis using raised_in_loop by simp
    next
      case (Inr u)
      with m o l run have "do_quit en w2 = (r, w')" by (auto simp: main_def)
      with m o l Inr show thesis using reached_quit by simp
    qed
  qed
qed

section \<open>Runs on the concrete worlds\<close>

lemma join_chars_id: "join_chars s = s"
  by (induction s) (simp_all add: join_chars_def)

lemma sample_env_fields:
  "json_loads sample_env sample_text = Inr sample_listing"
  "script_dir sample_env = ''/app''"
  "chrome_start sample_env d = None"
  "driver_get sample_env u w = Inr (fs w)"
  "driver_get_log sample_env w = Inr []"
  "driver_quit sample_env w = None"
  by (simp_all add: sample_env_def)

lemma failing_env_fields:
  "json_loads failing_env sample_text = Inr sample_listing"
  "script_dir failing_env = ''/app''"
  "chrome_start failing_env d = None"
  "driver_get failing_env ''about:blank'' w = Inr (fs w)"
  "u \<noteq> ''about:blank'' \<Longrightarrow> driver_get failing_env u w
     = Inl (WebDriverException ''unknown error: net::ERR_NAME_NOT_RESOLVED'')"
  "driver_get_log failing_env w = Inr []"
  "driver_quit failing_env w = None"
  by (simp_all add: failing_env_def sample_env_def)

lemma sample_output_directory: "output_directory sample_env = ''/app/PDFs''"
  by (simp add: output_directory_def sample_env_fields)

lemma failing_output_directory: "output_directory failing_env = ''/app/PDFs''"
  by (simp add: output_directory_def failing_env_fields)

lemma sample_main_extract:
  "main_extract sample_env sample_world
     = (Inr (Some [base_url_const @ ''/a_PDF'', base_url_const @ ''/c_PDF'']),
        \<lparr>fs = (fs sample_world)(''/app/PDFs'' \<mapsto> Dir), stdout = [],
         calls = [Launch ''/app/PDFs'']\<rparr>)"
  by (simp add: main_extract_def first_missing_cases sample_output_directory join_chars_id
      check_file_exists_def check_directory_exists_def create_directory_at_path_def
      setup_browser_def os_makedirs_exist_ok_def record_call_def read_a_file_def
      valid_urls_path_def extract_pdf_urls_def extract_body_def endswith_def
      sample_world_def sample_env_fields sample_listing_def sample_rows_def)

lemma failing_main_extract:
  "main_extract failing_env sample_world
     = (Inr (Some [base_url_const @ ''/a_PDF'', base_url_const @ ''/c_PDF'']),
        \<lparr>fs = (fs sample_world)(''/app/PDFs'' \<mapsto> Dir), stdout = [],
         calls = [Launch ''/app/PDFs'']\<rparr>)"
  by (simp add: main_extract_def first_missing_cases failing_output_directory join_chars_id
      check_file_exists_def check_directory_exists_def create_directory_at_path_def
      setup_browser_def os_makedirs_exist_ok_def record_call_def read_a_file_def
      valid_urls_path_def extract_pdf_urls_def extract_body_def endswith_def
      sample_world_def failing_env_fields sample_listing_def sample_rows_def)

lemma basename_after_slash:
  "CHR ''/'' \<notin> set n \<Longrightarrow> get_file_name_from_url (p @ ''/'' @ n) = n"
proof -
  have "takeWhile (\<lambda>c. c \<noteq> CHR ''/'') (rev n @ CHR ''/'' # rev p) = rev n"
    if "CHR ''/'' \<notin> set n"
    using that by (auto simp: takeWhile_tail takeWhile_eq_all_conv)
  then show "CHR ''/'' \<notin> set n \<Longrightarrow> get_file_name_from_url (p @ ''/'' @ n) = n"
    by (simp add: get_file_name_from_url_def)
qed

lemma sample_file_names:
  "get_file_name_from_url (base_url_const @ ''/a_PDF'') = ''a_PDF''"
  "get_file_name_from_url (base_url_const @ ''/c_PDF'') = ''c_PDF''"
  using basename_after_slash[of "''a_PDF''" base_url_const]
    basename_after_slash[of "''c_PDF''" base_url_const] by simp_all

lemma sample_paths:
  "os_path_join ''/app/PDFs'' ''a_PDF'' = ''/app/PDFs/a_PDF''"
  "os_path_join ''/app/PDFs'' ''c_PDF'' = ''/app/PDFs/c_PDF''"
  by (simp_all add: os_path_join_def endswith_def)

lemma base_not_blank: "base_url_const @ s \<noteq> ''about:blank''"
  by (simp add: base_url_const_def)

lemma sample_world_no_pdfs:
  "fs sample_world ''/app/PDFs/a_PDF'' = None" "fs sample_world ''/app/PDFs/c_PDF'' = None"
  "stdout sample_world = []" "calls sample_world = []"
  by (simp_all add: sample_world_def)

lemma failing_loop:
  "fs w ''/app/PDFs/a_PDF'' = None \<Longrightarrow>
   pdf_loop failing_env ''/app/PDFs'' [base_url_const @ ''/a_PDF'', base_url_const @ ''/c_PDF''] w
     = (Inl (WebDriverException ''unknown error: net::ERR_NAME_NOT_RESOLVED''),
        w\<lparr>stdout := stdout w @ [''Processing URL: '' @ base_url_const @ ''/a_PDF''],
          calls := calls w @ [Get ''about:blank'', Get (base_url_const @ ''/a_PDF'')]\<rparr>)"
  by (simp add: pdf_loop_Cons sample_file_names sample_paths check_file_exists_def
      download_pdf_if_valid_def get_http_status_code_from_browser_def capture_logs_def
      do_get_def do_get_log_def record_call_def print_line_def failing_env_fields
      base_not_blank)

lemma failing_run:
  "main failing_env sample_world
     = (Inl (WebDriverException ''unknown error: net::ERR_NAME_NOT_RESOLVED''),
        \<lparr>fs = (fs sample_world)(''/app/PDFs'' \<mapsto> Dir),
         stdout = [''Processing URL: '' @ base_url_const @ ''/a_PDF''],
         calls = [Launch ''/app/PDFs'', Get ''about:blank'',
                  Get (base_url_const @ ''/a_PDF'')]\<rparr>)"
  by (simp add: main_def failing_main_extract failing_output_directory failing_loop
      sample_world_no_pdfs)

lemma sample_loop:
  "fs w ''/app/PDFs/a_PDF'' = None \<Longrightarrow> fs w ''/app/PDFs/c_PDF'' = None \<Longrightarrow>
   pdf_loop sample_env ''/app/PDFs'' [base_url_const @ ''/a_PDF'', base_url_const @ ''/c_PDF''] w
     = (Inr (),
        w\<lparr>stdout := stdout w @ [''Processing URL: '' @ base_url_const @ ''/a_PDF'',
                              ''Processing URL: '' @ base_url_const @ ''/c_PDF''],
          calls := calls w @ [Get ''about:blank'', Get (base_url_const @ ''/a_PDF''), GetLog,
                            Get ''about:blank'', Get (base_url_const @ ''/c_PDF''), GetLog]\<rparr>)"
  by (simp add: pdf_loop_Cons sample_file_names sample_paths check_file_exists_def
      download_pdf_if_valid_def get_http_status_code_from_browser_def capture_logs_def
      do_get_def do_get_log_def record_call_def print_line_def sample_env_fields)

lemma sample_run:
  "main sample_env sample_world
     = (Inr (),
        \<lparr>fs = (fs sample_world)(''/app/PDFs'' \<mapsto> Dir),
         stdout = [''Processing URL: '' @ base_url_const @ ''/a_PDF'',
                   ''Processing URL: '' @ base_url_const @ ''/c_PDF''],
         calls = [Launch ''/app/PDFs'',
                  Get ''about:blank'', Get (base_url_const @ ''/a_PDF''), GetLog,
                  Get ''about:blank'', Get (base_url_const @ ''/c_PDF''), GetLog, Quit]\<rparr>)"
  by (simp add: main_def sample_main_extract sample_output_directory sample_loop
      sample_world_no_pdfs do_quit_def record_call_def sample_env_fields)

section \<open>The second listing file\<close>

lemma output_directory_not_listing:
  "output_directory en \<noteq> ''page_1.json''" "output_directory en \<noteq> ''page_2.json''"
  by (auto simp: output_directory_def dest: arg_cong[where f = last])

text \<open>
  Claim C9. Take a world in which both listing files exist and change the content of
  \<open>page_2.json\<close> to anything. The part of \<open>main\<close> that ends with the extraction
  (lines 247-287) gives the same result in both worlds: the same list of URLs for the loop,
  or the same exception. Only \<open>page_1.json\<close> is read.
\<close>

theorem extraction_ignores_second_listing:
  assumes "check_file_exists (fs w) ''page_1.json''"
    and "check_file_exists (fs w) ''page_2.json''"
  shows "fst (main_extract en (w\<lparr>fs := (fs w)(''page_2.json'' \<mapsto> File c)\<rparr>))
           = fst (main_extract en w)"
proof -
  let ?w' = "w\<lparr>fs := (fs w)(''page_2.json'' \<mapsto> File c)\<rparr>"
  let ?d = "output_directory en"
  have ok: "first_missing (fs w) valid_urls_path = None"
    "first_missing (fs ?w') valid_urls_path = None"
    using assms by (simp_all add: first_missing_cases check_file_exists_def)
  have d: "fs ?w' ?d = fs w ?d" using output_directory_not_listing by simp
  obtain content where content: "fs w ''page_1.json'' = Some (File content)"
    using assms(1) by (auto simp: check_file_exists_def split: option.splits node.splits)
  show ?thesis
  proof (cases "fs w ?d")
    case None
    with d ok content output_directory_not_listing[of en] show ?thesis
      by (simp add: main_extract_def check_directory_exists_def create_directory_at_path_def
          setup_browser_def os_makedirs_exist_ok_def Let_def record_call_def read_a_file_def
          valid_urls_path_def extract_pdf_urls_def print_line_def
          split: option.splits sum.splits)
  next
    case (Some n)
    with d ok content output_directory_not_listing[of en] show ?thesis
      by (cases n)
        (simp_all add: main_extract_def check_directory_exists_def
          setup_browser_def os_makedirs_exist_ok_def Let_def record_call_def read_a_file_def
          valid_urls_path_def extract_pdf_urls_def print_line_def
          split: option.splits sum.splits)
  qed
qed

section \<open>Missing listing files\<close>

lemma main_prints:
  assumes ok: "first_missing (fs w) valid_urls_path = None" and run: "main en w = (r, w')"
  shows "prints_extend ({l. \<exists>m. l = ''Error parsing JSON: '' @ m}
           \<union> {l. \<exists>u. l = ''Processing URL: '' @ u}) w w'"
proof -
  let ?E = "{l. \<exists>m. l = ''Error parsing JSON: '' @ m}"
  let ?P = "{l. \<exists>u. l = ''Processing URL: '' @ u}"
  from ok run show ?thesis
  proof (cases rule: main_cases)
    case (raised_early e)
    from main_extract_frame(3)[OF ok raised_early(1)] show ?thesis
      by (rule prints_extend_mono) auto
  next
    case (raised_in_loop urls w1 e)
    from prints_extend_trans[OF main_extract_frame(3)[OF ok raised_in_loop(1)]
        pdf_loop_prints[OF raised_in_loop(2)]]
    show ?thesis .
  next
    case (reached_quit urls w1 w2)
    have "prints_extend ?P w2 w'"
      using do_quit_frame(1)[OF reached_quit(3)] by (rule prints_extend_same)
    from prints_extend_trans[OF prints_extend_trans[OF
          main_extract_frame(3)[OF ok reached_quit(1)] pdf_loop_prints[OF reached_quit(2)]] this]
    show ?thesis by simp
  qed
qed

text \<open>
  Claim C5. If \<open>page_1.json\<close> is not a regular file, \<open>main\<close> prints the one line
  naming it and returns; if it is and \<open>page_2.json\<close> is not, the one line names
  \<open>page_2.json\<close>. In both cases nothing else changes: no directory is created and the
  browser is not called. If both are regular files, no line of the form
  \<open>Error: ... not found.\<close> is printed, however the run ends.
\<close>

theorem missing_listing_stops_main_with_one_line:
  "(\<not> check_file_exists (fs w) ''page_1.json'' \<longrightarrow>
      main en w = (Inr (), w\<lparr>stdout := stdout w @ [''Error: page_1.json not found.'']\<rparr>))
   \<and> (check_file_exists (fs w) ''page_1.json'' \<and> \<not> check_file_exists (fs w) ''page_2.json'' \<longrightarrow>
      main en w = (Inr (), w\<lparr>stdout := stdout w @ [''Error: page_2.json not found.'']\<rparr>))
   \<and> (check_file_exists (fs w) ''page_1.json'' \<and> check_file_exists (fs w) ''page_2.json''
        \<and> main en w = (r, w') \<longrightarrow>
      (\<exists>new. stdout w' = stdout w @ new
         \<and> (\<forall>l\<in>set new. \<forall>p. l \<noteq> ''Error: '' @ p @ '' not found.'')))"
proof (intro conjI impI)
  assume "\<not> check_file_exists (fs w) ''page_1.json''"
  then have "first_missing (fs w) valid_urls_path = Some ''page_1.json''"
    by (simp add: first_missing_cases)
  from main_extract_missing[OF this]
  show "main en w = (Inr (), w\<lparr>stdout := stdout w @ [''Error: page_1.json not found.'']\<rparr>)"
    by simp
next
  assume "check_file_exists (fs w) ''page_1.json'' \<and> \<not> check_file_exists (fs w) ''page_2.json''"
  then have "first_missing (fs w) valid_urls_path = Some ''page_2.json''"
    by (simp add: first_missing_cases)
  from main_extract_missing[OF this]
  show "main en w = (Inr (), w\<lparr>stdout := stdout w @ [''Error: page_2.json not found.'']\<rparr>)"
    by simp
next
  assume h: "check_file_exists (fs w) ''page_1.json'' \<and> check_file_exists (fs w) ''page_2.json''
        \<and> main en w = (r, w')"
  then have ok: "first_missing (fs w) valid_urls_path = None"
    by (simp add: first_missing_cases)
  from main_prints[OF ok] h obtain new where new: "stdout w' = stdout w @ new"
    "set new \<subseteq> {l. \<exists>m. l = ''Error parsing JSON: '' @ m}
           \<union> {l. \<exists>u. l = ''Processing URL: '' @ u}"
    unfolding prints_extend_def by blast
  have "\<forall>l\<in>set new. \<forall>p. l \<noteq> ''Error: '' @ p @ '' not found.''"
  proof (intro ballI allI)
    fix l p assume "l \<in> set new"
    with new(2) have "(\<exists>m. l = ''Error parsing JSON: '' @ m) \<or> (\<exists>u. l = ''Processing URL: '' @ u)"
      by blast
    then show "l \<noteq> ''Error: '' @ p @ '' not found.''"
      by auto
  qed
  with new(1) show "\<exists>new. stdout w' = stdout w @ new
         \<and> (\<forall>l\<in>set new. \<forall>p. l \<noteq> ''Error: '' @ p @ '' not found.'')" by blast
qed

section \<open>The browser session\<close>

lemma main_calls:
  assumes ok: "first_missing (fs w) valid_urls_path = None" and run: "main en w = (r, w')"
    and keeps: "browser_keeps_files en \<or> f0 = (\<lambda>p. None)" and f0: "files_kept f0 (fs w)"
  shows "\<exists>new. calls w' = calls w @ new
           \<and> set (butlast new) \<subseteq> {Launch (output_directory en), Get ''about:blank'', GetLog} \<union>
                Get ` {u. \<not> check_file_exists f0
                              (os_path_join (output_directory en) (get_file_name_from_url u))}
           \<and> (new \<noteq> [] \<and> last new = Quit \<or>
                set new \<subseteq> {Launch (output_directory en), Get ''about:blank'', GetLog} \<union>
                Get ` {u. \<not> check_file_exists f0
                              (os_path_join (output_directory en) (get_file_name_from_url u))}
                \<and> r \<noteq> Inr ())
           \<and> (new \<noteq> [] \<and> last new = Quit \<longrightarrow> r = Inr () \<or> (\<exists>x. driver_quit en x \<noteq> None))"
proof -
  let ?d = "output_directory en"
  let ?A = "{Launch ?d, Get ''about:blank'', GetLog} \<union>
     Get ` {u. \<not> check_file_exists f0 (os_path_join ?d (get_file_name_from_url u))}"
  from ok run show ?thesis
  proof (cases rule: main_cases)
    case (raised_early e)
    from main_extract_frame(2)[OF ok raised_early(1)]
    obtain new where "calls w' = calls w @ new" "set new \<subseteq> {Launch ?d}"
      unfolding calls_extend_def by blast
    moreover from this have "set new \<subseteq> ?A" "set (butlast new) \<subseteq> ?A" "Quit \<notin> set new"
      using in_set_butlastD by fastforce+
    moreover from this have "\<not> (new \<noteq> [] \<and> last new = Quit)" using last_in_set by metis
    ultimately show ?thesis using raised_early(2) by blast
  next
    case (raised_in_loop urls w1 e)
    from main_extract_frame(1)[OF ok raised_in_loop(1)] f0
    have k: "files_kept f0 (fs w1)" by (rule files_kept_trans[rotated])
    from calls_extend_trans[OF main_extract_frame(2)[OF ok raised_in_loop(1)]
        pdf_loop_skips[OF keeps raised_in_loop(2) k]]
    obtain new where "calls w' = calls w @ new" "set new \<subseteq> ?A"
      unfolding calls_extend_def by blast
    moreover from this have "set (butlast new) \<subseteq> ?A" "Quit \<notin> set new"
      using in_set_butlastD by fastforce+
    moreover from this have "\<not> (new \<noteq> [] \<and> last new = Quit)" using last_in_set by metis
    ultimately show ?thesis using raised_in_loop(3) by blast
  next
    case (reached_quit urls w1 w2)
    from main_extract_frame(1)[OF ok reached_quit(1)] f0
    have k: "files_kept f0 (fs w1)" by (rule files_kept_trans[rotated])
    from calls_extend_trans[OF main_extract_frame(2)[OF ok reached_quit(1)]
        pdf_loop_skips[OF keeps reached_quit(2) k]]
    obtain n where n: "calls w2 = calls w @ n" "set n \<subseteq> ?A"
      unfolding calls_extend_def by blast
    from do_quit_frame[OF reached_quit(3)] n
    have "calls w' = calls w @ (n @ [Quit])" "set (butlast (n @ [Quit])) \<subseteq> ?A"
      "n @ [Quit] \<noteq> [] \<and> last (n @ [Quit]) = Quit"
      "r = Inr () \<or> (\<exists>x. driver_quit en x \<noteq> None)"
      by auto
    then show ?thesis by blast
  qed
qed

lemma setup_browser_started:
  "setup_browser en d w = (Inr u, w') \<Longrightarrow>
     chrome_start en d = None \<and> calls w' = calls w @ [Launch d]"
  by (auto simp: setup_browser_def os_makedirs_exist_ok_def Let_def record_call_def
      split: option.splits node.splits)

lemma main_extract_started:
  assumes run: "main_extract en w = (Inr (Some urls), w1)"
  shows "chrome_start en (output_directory en) = None"
    and "calls w1 = calls w @ [Launch (output_directory en)]"
proof -
  let ?d = "output_directory en"
  obtain r1 wa where s1: "(if \<not> check_directory_exists (fs w) ?d
      then create_directory_at_path ?d w else (Inr (), w)) = (r1, wa)" by fastforce
  obtain r2 wb where s2: "setup_browser en ?d wa = (r2, wb)" by fastforce
  obtain r3 wc where s3: "read_a_file (valid_urls_path ! 0) wb = (r3, wc)" by fastforce
  obtain r4 wd where s4: "extract_pdf_urls en
      (join_chars (case r3 of Inr c \<Rightarrow> c | Inl _ \<Rightarrow> [])) base_url_const wc = (r4, wd)"
    by fastforce
  from run s1 s2 s3 s4 have res: "r2 = Inr ()" "w1 = wd"
    by (auto simp: main_extract_def split: sum.splits option.splits)
  from setup_browser_started[of en ?d wa "()" wb] s2 res(1)
  have st: "chrome_start en ?d = None" "calls wb = calls wa @ [Launch ?d]" by auto
  from st(1) show "chrome_start en ?d = None" .
  from prepare_dir_frame(2)[OF s1] st(2) read_a_file_frame[OF s3]
    extract_pdf_urls_frame(2)[OF s4] res(2)
  show "calls w1 = calls w @ [Launch ?d]" by simp
qed

lemma pdf_loop_no_quit:
  assumes "pdf_loop en d urls w = (r, w')"
  shows "\<exists>new. calls w' = calls w @ new \<and> Quit \<notin> set new \<and> (\<forall>p. Launch p \<notin> set new)"
proof -
  from pdf_loop_calls[OF assms] obtain new where "calls w' = calls w @ new"
    "set new \<subseteq> {Get ''about:blank'', GetLog} \<union> Get ` set urls"
    unfolding calls_extend_def by blast
  moreover from this(2) have "Quit \<notin> set new" "\<forall>p. Launch p \<notin> set new" by auto
  ultimately show ?thesis by blast
qed

text \<open>
  Claim C3 says the browser is quit exactly once on every exit path past the validation,
  also when a step of the loop fails. \<open>main\<close> has no \<open>try\<close>: the call of
  \<open>driver.quit\<close> is its last statement. What holds on a run past the validation:
  \<open>driver.quit\<close> is called at most once; when \<open>main\<close> returns normally it was
  called exactly once, as the last browser call; when the part before the loop raises
  (lines 261-287), that exception leaves \<open>main\<close> and \<open>driver.quit\<close> is not
  called; and when the loop raises, that exception leaves \<open>main\<close>, the browser had
  been started (\<open>webdriver.Chrome\<close> was called once and returned), and
  \<open>driver.quit\<close> is not called.
\<close>

theorem quit_once_when_loop_completes:
  assumes "check_file_exists (fs w) ''page_1.json''"
    and "check_file_exists (fs w) ''page_2.json''"
    and "main en w = (r, w')"
  shows "\<exists>new. calls w' = calls w @ new
           \<and> count_list new Quit \<le> 1
           \<and> (r = Inr () \<longrightarrow> count_list new Quit = 1 \<and> last new = Quit)
           \<and> (\<forall>e w1. main_extract en w = (Inl e, w1) \<longrightarrow>
                 r = Inl e \<and> w' = w1 \<and> count_list new Quit = 0)
           \<and> (\<forall>urls w1 e w2.
                 main_extract en w = (Inr (Some urls), w1) \<and>
                 pdf_loop en (output_directory en) urls w1 = (Inl e, w2) \<longrightarrow>
                 r = Inl e \<and> w' = w2 \<and> chrome_start en (output_directory en) = None
                 \<and> count_list new (Launch (output_directory en)) = 1
                 \<and> count_list new Quit = 0)"
proof -
  let ?d = "output_directory en"
  have ok: "first_missing (fs w) valid_urls_path = None"
    using assms by (simp add: first_missing_cases)
  from ok assms(3) show ?thesis
  proof (cases rule: main_cases)
    case (raised_early e)
    from main_extract_frame(2)[OF ok raised_early(1)]
    obtain new where new: "calls w' = calls w @ new" "set new \<subseteq> {Launch ?d}"
      unfolding calls_extend_def by blast
    from new(2) have "Quit \<notin> set new" by auto
    then have c: "count_list new Quit = 0" by (simp add: count_list_0_iff)
    have "calls w' = calls w @ new
           \<and> count_list new Quit \<le> 1
           \<and> (r = Inr () \<longrightarrow> count_list new Quit = 1 \<and> last new = Quit)
           \<and> (\<forall>e w1. main_extract en w = (Inl e, w1) \<longrightarrow>
                 r = Inl e \<and> w' = w1 \<and> count_list new Quit = 0)
           \<and> (\<forall>urls w1 e w2.
                 main_extract en w = (Inr (Some urls), w1) \<and>
                 pdf_loop en ?d urls w1 = (Inl e, w2) \<longrightarrow>
                 r = Inl e \<and> w' = w2 \<and> chrome_start en ?d = None
                 \<and> count_list new (Launch ?d) = 1
                 \<and> count_list new Quit = 0)"
      using new(1) c raised_early by simp
    then show ?thesis ..
  next
    case (raised_in_loop urls w1 e)
    note st = main_extract_started[OF raised_in_loop(1)]
    from pdf_loop_no_quit[OF raised_in_loop(2)] obtain n2 where
      n2: "calls w' = calls w1 @ n2" "Quit \<notin> set n2" "\<forall>p. Launch p \<notin> set n2" by blast
    let ?new = "Launch ?d # n2"
    have a: "calls w' = calls w @ ?new" using st(2) n2(1) by simp
    have c: "count_list ?new Quit = 0" using n2(2) by (simp add: count_list_0_iff)
    have l: "count_list ?new (Launch ?d) = 1" using n2(3) by (simp add: count_list_0_iff)
    have "calls w' = calls w @ ?new
           \<and> count_list ?new Quit \<le> 1
           \<and> (r = Inr () \<longrightarrow> count_list ?new Quit = 1 \<and> last ?new = Quit)
           \<and> (\<forall>e w1. main_extract en w = (Inl e, w1) \<longrightarrow>
                 r = Inl e \<and> w' = w1 \<and> count_list ?new Quit = 0)
           \<and> (\<forall>urls w1 e w2.
                 main_extract en w = (Inr (Some urls), w1) \<and>
                 pdf_loop en ?d urls w1 = (Inl e, w2) \<longrightarrow>
                 r = Inl e \<and> w' = w2 \<and> chrome_start en ?d = None
                 \<and> count_list ?new (Launch ?d) = 1
                 \<and> count_list ?new Quit = 0)"
      using a c l st(1) raised_in_loop by simp
    then show ?thesis ..
  next
    case (reached_quit urls w1 w2)
    note st = main_extract_started[OF reached_quit(1)]
    from pdf_loop_no_quit[OF reached_quit(2)] obtain n2 where
      n2: "calls w2 = calls w1 @ n2" "Quit \<notin> set n2" by blast
    let ?new = "Launch ?d # n2 @ [Quit]"
    have a: "calls w' = calls w @ ?new"
      using st(2) n2(1) do_quit_frame(2)[OF reached_quit(3)] by simp
    have c: "count_list ?new Quit = 1" using n2(2) by (simp add: count_list_0_iff)
    have "calls w' = calls w @ ?new
           \<and> count_list ?new Quit \<le> 1
           \<and> (r = Inr () \<longrightarrow> count_list ?new Quit = 1 \<and> last ?new = Quit)
           \<and> (\<forall>e w1. main_extract en w = (Inl e, w1) \<longrightarrow>
                 r = Inl e \<and> w' = w1 \<and> count_list ?new Quit = 0)
           \<and> (\<forall>urls w1 e w2.
                 main_extract en w = (Inr (Some urls), w1) \<and>
                 pdf_loop en ?d urls w1 = (Inl e, w2) \<longrightarrow>
                 r = Inl e \<and> w' = w2 \<and> chrome_start en ?d = None
                 \<and> count_list ?new (Launch ?d) = 1
                 \<and> count_list ?new Quit = 0)"
      using a c reached_quit(1,2) by simp
    then show ?thesis ..
  qed
qed

section \<open>Failures inside the loop\<close>

text \<open>
  Claim C4 says that any fetch failure, a navigation error included, skips one URL only.
  What holds, for a URL whose file is not there yet: whenever the status function returns
  (a status other than 200 and the absent status \<open>None\<close> included), the loop goes on
  with the next URL; whenever it raises (an error of \<open>driver.get\<close> or of the reading of
  the log), the exception leaves the loop at once and no further URL is processed.
\<close>

theorem loop_goes_on_after_any_status:
  assumes "\<not> check_file_exists (fs w) (os_path_join d (get_file_name_from_url u))"
  shows "(get_http_status_code_from_browser en u (print_line (''Processing URL: '' @ u) w)
            = (Inr st, w1)
          \<longrightarrow> pdf_loop en d (u # rest) w = pdf_loop en d rest w1)
       \<and> (get_http_status_code_from_browser en u (print_line (''Processing URL: '' @ u) w)
            = (Inl e, w1)
          \<longrightarrow> pdf_loop en d (u # rest) w = (Inl e, w1))"
  using assms by (simp add: pdf_loop_Cons download_pdf_if_valid_def)

lemma logging_env_fields:
  "driver_get logging_env u w = Inr (fs w)"
  "driver_get_log logging_env w = Inr [broken_entry, response_entry]"
  by (simp_all add: logging_env_def sample_env_def)

lemma logging_capture_any:
  "capture_logs logging_env u w
     = (Inr [broken_entry, response_entry],
        w\<lparr>calls := calls w @ [Get ''about:blank'', Get u, GetLog]\<rparr>)"
  by (simp add: capture_logs_def do_get_def do_get_log_def record_call_def logging_env_fields)

lemma logging_absent_status:
  "get_http_status_code_from_browser logging_env ''http://x/c_PDF'' w
     = (Inr JNull, w\<lparr>calls := calls w @ [Get ''about:blank'', Get ''http://x/c_PDF'', GetLog]\<rparr>)"
  using get_status_captured[OF logging_capture_any, of "''http://x/c_PDF''" w]
    scan_logs_no_match_prefix[of "[broken_entry, response_entry]" "json_loads logging_env"
      "''http://x/c_PDF''" "[]"]
    broken_entry_not_received response_entry_other_url
  by simp

lemma failing_status:
  "u \<noteq> ''about:blank'' \<Longrightarrow>
   get_http_status_code_from_browser failing_env u w
     = (Inl (WebDriverException ''unknown error: net::ERR_NAME_NOT_RESOLVED''),
        w\<lparr>calls := calls w @ [Get ''about:blank'', Get u]\<rparr>)"
  by (simp add: get_http_status_code_from_browser_def capture_logs_def do_get_def
      record_call_def failing_env_fields)

lemma x_file_names:
  "os_path_join ''/app/PDFs'' (get_file_name_from_url ''http://x/c_PDF'') = ''/app/PDFs/c_PDF''"
  "os_path_join ''/app/PDFs'' (get_file_name_from_url ''http://x/a_PDF'') = ''/app/PDFs/a_PDF''"
  by (simp_all add: os_path_join_def get_file_name_from_url_def endswith_def)

theorem loop_goes_on_after_any_status_witness:
  "\<not> check_file_exists (fs sample_world)
        (os_path_join ''/app/PDFs'' (get_file_name_from_url ''http://x/c_PDF''))
   \<and> get_http_status_code_from_browser logging_env ''http://x/c_PDF''
        (print_line (''Processing URL: '' @ ''http://x/c_PDF'') sample_world)
      = (Inr JNull,
         sample_world\<lparr>stdout := [''Processing URL: http://x/c_PDF''],
                        calls := [Get ''about:blank'', Get ''http://x/c_PDF'', GetLog]\<rparr>)
   \<and> pdf_loop logging_env ''/app/PDFs'' [''http://x/c_PDF'', ''http://x/a_PDF''] sample_world
      = pdf_loop logging_env ''/app/PDFs'' [''http://x/a_PDF'']
          (sample_world\<lparr>stdout := [''Processing URL: http://x/c_PDF''],
                        calls := [Get ''about:blank'', Get ''http://x/c_PDF'', GetLog]\<rparr>)
   \<and> get_http_status_code_from_browser failing_env ''http://x/c_PDF''
        (print_line (''Processing URL: '' @ ''http://x/c_PDF'') sample_world)
      = (Inl (WebDriverException ''unknown error: net::ERR_NAME_NOT_RESOLVED''),
         sample_world\<lparr>stdout := [''Processing URL: http://x/c_PDF''],
                        calls := [Get ''about:blank'', Get ''http://x/c_PDF'']\<rparr>)
   \<and> pdf_loop failing_env ''/app/PDFs'' [''http://x/c_PDF'', ''http://x/a_PDF''] sample_world
      = (Inl (WebDriverException ''unknown error: net::ERR_NAME_NOT_RESOLVED''),
         sample_world\<lparr>stdout := [''Processing URL: http://x/c_PDF''],
                        calls := [Get ''about:blank'', Get ''http://x/c_PDF'']\<rparr>)"
proof -
  have nf: "\<not> check_file_exists (fs sample_world)
        (os_path_join ''/app/PDFs'' (get_file_name_from_url ''http://x/c_PDF''))"
    by (simp add: x_file_names check_file_exists_def sample_world_no_pdfs)
  have a: "get_http_status_code_from_browser logging_env ''http://x/c_PDF''
        (print_line (''Processing URL: '' @ ''http://x/c_PDF'') sample_world)
      = (Inr JNull,
         sample_world\<lparr>stdout := [''Processing URL: http://x/c_PDF''],
                        calls := [Get ''about:blank'', Get ''http://x/c_PDF'', GetLog]\<rparr>)"
    by (simp add: logging_absent_status print_line_def sample_world_no_pdfs)
  have b: "get_http_status_code_from_browser failing_env ''http://x/c_PDF''
        (print_line (''Processing URL: '' @ ''http://x/c_PDF'') sample_world)
      = (Inl (WebDriverException ''unknown error: net::ERR_NAME_NOT_RESOLVED''),
         sample_world\<lparr>stdout := [''Processing URL: http://x/c_PDF''],
                        calls := [Get ''about:blank'', Get ''http://x/c_PDF'']\<rparr>)"
    by (simp add: failing_status print_line_def sample_world_no_pdfs)
  from loop_goes_on_after_any_status[OF nf, of logging_env JNull _ "[''http://x/a_PDF'']"] a
  have c: "pdf_loop logging_env ''/app/PDFs'' [''http://x/c_PDF'', ''http://x/a_PDF''] sample_world
      = pdf_loop logging_env ''/app/PDFs'' [''http://x/a_PDF'']
          (sample_world\<lparr>stdout := [''Processing URL: http://x/c_PDF''],
                        calls := [Get ''about:blank'', Get ''http://x/c_PDF'', GetLog]\<rparr>)"
    by simp
  from loop_goes_on_after_any_status[OF nf, of failing_env _ _ "[''http://x/a_PDF'']"] b
  have d: "pdf_loop failing_env ''/app/PDFs'' [''http://x/c_PDF'', ''http://x/a_PDF''] sample_world
      = (Inl (WebDriverException ''unknown error: net::ERR_NAME_NOT_RESOLVED''),
         sample_world\<lparr>stdout := [''Processing URL: http://x/c_PDF''],
                        calls := [Get ''about:blank'', Get ''http://x/c_PDF'']\<rparr>)"
    by simp
  from nf a b c d show ?thesis by blast
qed

text \<open>
  Against claim C4 as stated: with a browser whose navigation to the first URL raises, the
  loop over two URLs ends with that exception after the first; the second URL is neither
  printed nor fetched.
\<close>

theorem navigation_error_stops_the_loop:
  "fst (pdf_loop failing_env ''/app/PDFs''
          [base_url_const @ ''/a_PDF'', base_url_const @ ''/c_PDF''] sample_world)
     = Inl (WebDriverException ''unknown error: net::ERR_NAME_NOT_RESOLVED'')
   \<and> stdout (snd (pdf_loop failing_env ''/app/PDFs''
          [base_url_const @ ''/a_PDF'', base_url_const @ ''/c_PDF''] sample_world))
     = [''Processing URL: '' @ base_url_const @ ''/a_PDF'']
   \<and> calls (snd (pdf_loop failing_env ''/app/PDFs''
          [base_url_const @ ''/a_PDF'', base_url_const @ ''/c_PDF''] sample_world))
     = [Get ''about:blank'', Get (base_url_const @ ''/a_PDF'')]"
  by (simp add: failing_loop sample_world_no_pdfs)

text \<open>
  Against claim C3 as stated: both listing files exist, the navigation to the first URL
  raises, the exception leaves \<open>main\<close>, and \<open>driver.quit\<close> was never called.
\<close>

theorem navigation_error_skips_quit:
  "check_file_exists (fs sample_world) ''page_1.json''
   \<and> check_file_exists (fs sample_world) ''page_2.json''
   \<and> fst (main failing_env sample_world)
       = Inl (WebDriverException ''unknown error: net::ERR_NAME_NOT_RESOLVED'')
   \<and> calls (snd (main failing_env sample_world))
       = [Launch ''/app/PDFs'', Get ''about:blank'', Get (base_url_const @ ''/a_PDF'')]
   \<and> count_list (calls (snd (main failing_env sample_world))) Quit = 0"
  by (simp add: failing_run) (simp add: sample_world_def check_file_exists_def)

lemma blocked_main_extract:
  "main_extract sample_env blocked_world
     = (Inl (FileExistsError (''[Errno 17] File exists: '' @ quoted ''/app/PDFs'')),
        blocked_world)"
proof -
  have f: "fs blocked_world ''/app/PDFs'' = Some (File [])"
    "check_file_exists (fs blocked_world) ''page_1.json''"
    "check_file_exists (fs blocked_world) ''page_2.json''"
    by (simp_all add: blocked_world_def sample_world_def check_file_exists_def)
  then show ?thesis
    by (simp add: main_extract_def first_missing_cases sample_output_directory
        check_directory_exists_def setup_browser_def os_makedirs_exist_ok_def)
qed

theorem quit_once_when_loop_completes_witness:
  "check_file_exists (fs sample_world) ''page_1.json''
   \<and> check_file_exists (fs sample_world) ''page_2.json''
   \<and> fst (main sample_env sample_world) = Inr ()
   \<and> (\<exists>new. calls (snd (main sample_env sample_world)) = calls sample_world @ new
         \<and> count_list new Quit = 1 \<and> last new = Quit)
   \<and> check_file_exists (fs blocked_world) ''page_1.json''
   \<and> check_file_exists (fs blocked_world) ''page_2.json''
   \<and> main_extract sample_env blocked_world
       = (Inl (FileExistsError (''[Errno 17] File exists: '' @ quoted ''/app/PDFs'')),
          blocked_world)
   \<and> main sample_env blocked_world
       = (Inl (FileExistsError (''[Errno 17] File exists: '' @ quoted ''/app/PDFs'')),
          blocked_world)
   \<and> (\<exists>new. calls (snd (main sample_env blocked_world)) = calls blocked_world @ new
         \<and> count_list new Quit = 0)
   \<and> main_extract failing_env sample_world
       = (Inr (Some [base_url_const @ ''/a_PDF'', base_url_const @ ''/c_PDF'']),
          \<lparr>fs = (fs sample_world)(''/app/PDFs'' \<mapsto> Dir), stdout = [],
           calls = [Launch ''/app/PDFs'']\<rparr>)
   \<and> fst (pdf_loop failing_env (output_directory failing_env)
            [base_url_const @ ''/a_PDF'', base_url_const @ ''/c_PDF'']
            \<lparr>fs = (fs sample_world)(''/app/PDFs'' \<mapsto> Dir), stdout = [],
             calls = [Launch ''/app/PDFs'']\<rparr>)
       = Inl (WebDriverException ''unknown error: net::ERR_NAME_NOT_RESOLVED'')
   \<and> fst (main failing_env sample_world)
       = Inl (WebDriverException ''unknown error: net::ERR_NAME_NOT_RESOLVED'')
   \<and> chrome_start failing_env (output_directory failing_env) = None
   \<and> (\<exists>new. calls (snd (main failing_env sample_world)) = calls sample_world @ new
         \<and> count_list new (Launch (output_directory failing_env)) = 1
         \<and> count_list new Quit = 0)"
proof -
  let ?W1 = "\<lparr>fs = (fs sample_world)(''/app/PDFs'' \<mapsto> Dir), stdout = [],
             calls = [Launch ''/app/PDFs'']\<rparr>"
  let ?U = "[base_url_const @ ''/a_PDF'', base_url_const @ ''/c_PDF'']"
  let ?E = "WebDriverException ''unknown error: net::ERR_NAME_NOT_RESOLVED''"
  have s1: "check_file_exists (fs sample_world) ''page_1.json''"
    and s2: "check_file_exists (fs sample_world) ''page_2.json''"
    by (simp_all add: sample_world_def check_file_exists_def)
  have b1: "check_file_exists (fs blocked_world) ''page_1.json''"
    and b2: "check_file_exists (fs blocked_world) ''page_2.json''"
    by (simp_all add: blocked_world_def sample_world_def check_file_exists_def)
  have ms: "main sample_env sample_world
             = (fst (main sample_env sample_world), snd (main sample_env sample_world))"
    and mb: "main sample_env blocked_world
             = (fst (main sample_env blocked_world), snd (main sample_env blocked_world))"
    and mf: "main failing_env sample_world
             = (fst (main failing_env sample_world), snd (main failing_env sample_world))"
    by simp_all
  have rs: "fst (main sample_env sample_world) = Inr ()" by (simp add: sample_run)
  from quit_once_when_loop_completes[OF s1 s2 ms] obtain n1 where
    n1: "calls (snd (main sample_env sample_world)) = calls sample_world @ n1"
      "fst (main sample_env sample_world) = Inr () \<longrightarrow>
         count_list n1 Quit = 1 \<and> last n1 = Quit"
    by blast
  from n1 rs have A: "\<exists>new. calls (snd (main sample_env sample_world)) = calls sample_world @ new
         \<and> count_list new Quit = 1 \<and> last new = Quit" by blast
  from quit_once_when_loop_completes[OF b1 b2 mb] obtain n2 where
    n2: "calls (snd (main sample_env blocked_world)) = calls blocked_world @ n2"
      "\<forall>e w1. main_extract sample_env blocked_world = (Inl e, w1) \<longrightarrow>
         fst (main sample_env blocked_world) = Inl e \<and> snd (main sample_env blocked_world) = w1
         \<and> count_list n2 Quit = 0"
    by blast
  from n2(2)[rule_format, OF blocked_main_extract]
  have B0: "fst (main sample_env blocked_world)
              = Inl (FileExistsError (''[Errno 17] File exists: '' @ quoted ''/app/PDFs''))"
    "snd (main sample_env blocked_world) = blocked_world" "count_list n2 Quit = 0"
    by simp_all
  from B0(1,2) mb have B1: "main sample_env blocked_world
       = (Inl (FileExistsError (''[Errno 17] File exists: '' @ quoted ''/app/PDFs'')),
          blocked_world)" by simp
  from n2(1) B0(3) have B2: "\<exists>new. calls (snd (main sample_env blocked_world))
         = calls blocked_world @ new \<and> count_list new Quit = 0" by blast
  have fl: "pdf_loop failing_env (output_directory failing_env) ?U ?W1
      = (Inl ?E, ?W1\<lparr>stdout := stdout ?W1
                          @ [''Processing URL: '' @ base_url_const @ ''/a_PDF''],
          calls := calls ?W1 @ [Get ''about:blank'', Get (base_url_const @ ''/a_PDF'')]\<rparr>)"
    unfolding failing_output_directory
    by (rule failing_loop) (simp add: sample_world_no_pdfs)
  then have C0: "fst (pdf_loop failing_env (output_directory failing_env) ?U ?W1) = Inl ?E"
    by simp
  have cs: "chrome_start failing_env (output_directory failing_env) = None"
    by (rule failing_env_fields)
  from quit_once_when_loop_completes[OF s1 s2 mf] obtain n3 where
    n3: "calls (snd (main failing_env sample_world)) = calls sample_world @ n3"
      "\<forall>urls w1 e w2.
         main_extract failing_env sample_world = (Inr (Some urls), w1) \<and>
         pdf_loop failing_env (output_directory failing_env) urls w1 = (Inl e, w2) \<longrightarrow>
         fst (main failing_env sample_world) = Inl e \<and> snd (main failing_env sample_world) = w2
         \<and> chrome_start failing_env (output_directory failing_env) = None
         \<and> count_list n3 (Launch (output_directory failing_env)) = 1
         \<and> count_list n3 Quit = 0"
    by blast
  from n3(2)[rule_format, OF conjI[OF failing_main_extract fl]]
  have C1: "fst (main failing_env sample_world) = Inl ?E"
    "count_list n3 (Launch (output_directory failing_env)) = 1" "count_list n3 Quit = 0"
    by simp_all
  from n3(1) C1(2,3) have C2: "\<exists>new. calls (snd (main failing_env sample_world))
         = calls sample_world @ new
         \<and> count_list new (Launch (output_directory failing_env)) = 1
         \<and> count_list new Quit = 0" by blast
  show ?thesis
    apply (intro conjI)
    apply (rule s1)
    apply (rule s2)
    apply (rule rs)
    apply (rule A)
    apply (rule b1)
    apply (rule b2)
    apply (rule blocked_main_extract)
    apply (rule B1)
    apply (rule B2)
    apply (rule failing_main_extract)
    apply (rule C0)
    apply (rule C1(1))
    apply (rule cs)
    apply (rule C2)
    done
qed

section \<open>Files that are already there\<close>

text \<open>
  Claim C6. A URL whose file name (the text after its last slash) already names a regular
  file in the output directory is skipped by the loop: its line is printed and nothing else
  happens, no browser call and no change on disk. And for a whole run with a browser that
  never removes a file: if the file of an extracted URL is there when \<open>main\<close> starts,
  as after an earlier run that produced it, the run never navigates to that URL.
\<close>

theorem existing_file_is_skipped_without_navigation:
  "(check_file_exists (fs w) (os_path_join d (get_file_name_from_url u)) \<longrightarrow>
      pdf_loop en d (u # rest) w
        = pdf_loop en d rest (w\<lparr>stdout := stdout w @ [''Processing URL: '' @ u]\<rparr>))
   \<and> (CHR ''/'' \<notin> set n \<longrightarrow> get_file_name_from_url (p @ ''/'' @ n) = n)
   \<and> (browser_keeps_files en
        \<and> check_file_exists (fs w) ''page_1.json'' \<and> check_file_exists (fs w) ''page_2.json''
        \<and> main en w = (r, w')
        \<and> check_file_exists (fs w)
             (os_path_join (output_directory en)
                (get_file_name_from_url (base_url_const @ ''/'' @ i))) \<longrightarrow>
      (\<exists>new. calls w' = calls w @ new \<and> Get (base_url_const @ ''/'' @ i) \<notin> set new))"
proof (intro conjI impI)
  assume "check_file_exists (fs w) (os_path_join d (get_file_name_from_url u))"
  then show "pdf_loop en d (u # rest) w
        = pdf_loop en d rest (w\<lparr>stdout := stdout w @ [''Processing URL: '' @ u]\<rparr>)"
    by (simp add: pdf_loop_Cons print_line_def)
next
  assume "CHR ''/'' \<notin> set n"
  then show "get_file_name_from_url (p @ ''/'' @ n) = n" by (rule basename_after_slash)
next
  let ?u = "base_url_const @ ''/'' @ i"
  let ?d = "output_directory en"
  let ?A = "{Launch ?d, Get ''about:blank'', GetLog} \<union>
     Get ` {u. \<not> check_file_exists (fs w) (os_path_join ?d (get_file_name_from_url u))}"
  assume h: "browser_keeps_files en
        \<and> check_file_exists (fs w) ''page_1.json'' \<and> check_file_exists (fs w) ''page_2.json''
        \<and> main en w = (r, w')
        \<and> check_file_exists (fs w) (os_path_join ?d (get_file_name_from_url ?u))"
  from h have p1: "check_file_exists (fs w) ''page_1.json''"
    and p2: "check_file_exists (fs w) ''page_2.json''"
    and run: "main en w = (r, w')"
    and keeps: "browser_keeps_files en \<or> fs w = (\<lambda>p. None)"
    and e: "check_file_exists (fs w) (os_path_join ?d (get_file_name_from_url ?u))"
    by blast+
  from p1 p2 have ok: "first_missing (fs w) valid_urls_path = None"
    by (simp add: first_missing_cases)
  from main_calls[OF ok run keeps files_kept_refl] obtain new where
    new: "calls w' = calls w @ new" "set (butlast new) \<subseteq> ?A"
      "new \<noteq> [] \<and> last new = Quit \<or> set new \<subseteq> ?A \<and> r \<noteq> Inr ()"
    by blast
  have nb: "?u \<noteq> ''about:blank''" by (rule base_not_blank)
  have notA: "Get ?u \<notin> ?A"
  proof
    assume "Get ?u \<in> ?A"
    then have "Get ?u \<in> Get ` {u. \<not> check_file_exists (fs w)
        (os_path_join ?d (get_file_name_from_url u))}"
      using nb by blast
    then have "\<not> check_file_exists (fs w) (os_path_join ?d (get_file_name_from_url ?u))"
      by blast
    with e show False by simp
  qed
  have "Get ?u \<notin> set new"
  proof (cases "new \<noteq> [] \<and> last new = Quit")
    case True
    then obtain pre where pre: "new = pre @ [Quit]" by (metis append_butlast_last_id)
    with new(2) have "set pre \<subseteq> ?A" by simp
    with notA have "Get ?u \<notin> set pre" by blast
    with pre show ?thesis by simp
  next
    case False
    with new(3) have "set new \<subseteq> ?A" by blast
    with notA show ?thesis by blast
  qed
  with new(1) show "\<exists>new. calls w' = calls w @ new \<and> Get ?u \<notin> set new" by blast
qed

lemma rerun_world_fields:
  "check_file_exists (fs rerun_world) ''page_1.json''"
  "check_file_exists (fs rerun_world) ''page_2.json''"
  "check_file_exists (fs rerun_world) ''/app/PDFs/a_PDF''"
  "fs rerun_world ''/app/PDFs/c_PDF'' = None"
  "fs rerun_world ''/app/PDFs'' = Some Dir"
  "fs rerun_world ''page_1.json'' = Some (File sample_text)"
  "stdout rerun_world = []" "calls rerun_world = []"
  by (simp_all add: rerun_world_def sample_world_def check_file_exists_def)

lemma rerun_main_extract:
  "main_extract sample_env rerun_world
     = (Inr (Some [base_url_const @ ''/a_PDF'', base_url_const @ ''/c_PDF'']),
        rerun_world\<lparr>calls := [Launch ''/app/PDFs'']\<rparr>)"
  by (simp add: main_extract_def first_missing_cases sample_output_directory join_chars_id
      rerun_world_fields check_directory_exists_def
      setup_browser_def os_makedirs_exist_ok_def record_call_def read_a_file_def
      valid_urls_path_def extract_pdf_urls_def extract_body_def endswith_def
      sample_env_fields sample_listing_def sample_rows_def)

lemma rerun_loop:
  "check_file_exists (fs w) ''/app/PDFs/a_PDF'' \<Longrightarrow> fs w ''/app/PDFs/c_PDF'' = None \<Longrightarrow>
   pdf_loop sample_env ''/app/PDFs'' [base_url_const @ ''/a_PDF'', base_url_const @ ''/c_PDF''] w
     = (Inr (),
        w\<lparr>stdout := stdout w @ [''Processing URL: '' @ base_url_const @ ''/a_PDF'',
                              ''Processing URL: '' @ base_url_const @ ''/c_PDF''],
          calls := calls w @ [Get ''about:blank'', Get (base_url_const @ ''/c_PDF''), GetLog]\<rparr>)"
  by (simp add: pdf_loop_Cons sample_file_names sample_paths check_file_exists_def
      download_pdf_if_valid_def get_http_status_code_from_browser_def capture_logs_def
      do_get_def do_get_log_def record_call_def print_line_def sample_env_fields)

lemma rerun_run:
  "main sample_env rerun_world
     = (Inr (),
        rerun_world\<lparr>stdout := [''Processing URL: '' @ base_url_const @ ''/a_PDF'',
                                ''Processing URL: '' @ base_url_const @ ''/c_PDF''],
                     calls := [Launch ''/app/PDFs'', Get ''about:blank'',
                               Get (base_url_const @ ''/c_PDF''), GetLog, Quit]\<rparr>)"
  by (simp add: main_def rerun_main_extract sample_output_directory rerun_loop
      rerun_world_fields do_quit_def record_call_def sample_env_fields)

lemma sample_env_keeps_files: "browser_keeps_files sample_env"
  by (simp add: browser_keeps_files_def sample_env_fields files_kept_refl)

theorem existing_file_is_skipped_without_navigation_witness:
  "check_file_exists (fs rerun_world)
     (os_path_join ''/app/PDFs'' (get_file_name_from_url (base_url_const @ ''/'' @ ''a_PDF'')))
   \<and> pdf_loop sample_env ''/app/PDFs''
        [base_url_const @ ''/'' @ ''a_PDF'', base_url_const @ ''/c_PDF''] rerun_world
      = pdf_loop sample_env ''/app/PDFs'' [base_url_const @ ''/c_PDF'']
          (rerun_world\<lparr>stdout := stdout rerun_world
                          @ [''Processing URL: '' @ base_url_const @ ''/'' @ ''a_PDF'']\<rparr>)
   \<and> CHR ''/'' \<notin> set ''a_PDF''
   \<and> get_file_name_from_url (base_url_const @ ''/'' @ ''a_PDF'') = ''a_PDF''
   \<and> browser_keeps_files sample_env
   \<and> check_file_exists (fs rerun_world) ''page_1.json''
   \<and> check_file_exists (fs rerun_world) ''page_2.json''
   \<and> calls (snd (main sample_env rerun_world))
       = [Launch ''/app/PDFs'', Get ''about:blank'', Get (base_url_const @ ''/c_PDF''), GetLog,
          Quit]
   \<and> (\<exists>new. calls (snd (main sample_env rerun_world)) = calls rerun_world @ new
         \<and> Get (base_url_const @ ''/'' @ ''a_PDF'') \<notin> set new)"
proof -
  have e: "check_file_exists (fs rerun_world)
     (os_path_join ''/app/PDFs'' (get_file_name_from_url (base_url_const @ ''/'' @ ''a_PDF'')))"
    using sample_file_names(1) by (simp add: sample_paths rerun_world_fields)
  then have e': "check_file_exists (fs rerun_world)
     (os_path_join (output_directory sample_env)
        (get_file_name_from_url (base_url_const @ ''/'' @ ''a_PDF'')))"
    by (simp add: sample_output_directory)
  have n: "CHR ''/'' \<notin> set ''a_PDF''" by simp
  have m: "main sample_env rerun_world
             = (fst (main sample_env rerun_world), snd (main sample_env rerun_world))"
    by simp
  note t = existing_file_is_skipped_without_navigation[of rerun_world "''/app/PDFs''"
      "base_url_const @ ''/'' @ ''a_PDF''" sample_env "[base_url_const @ ''/c_PDF'']"
      "''a_PDF''" base_url_const "fst (main sample_env rerun_world)"
      "snd (main sample_env rerun_world)" "''a_PDF''"]
  from t e have 1: "pdf_loop sample_env ''/app/PDFs''
        [base_url_const @ ''/'' @ ''a_PDF'', base_url_const @ ''/c_PDF''] rerun_world
      = pdf_loop sample_env ''/app/PDFs'' [base_url_const @ ''/c_PDF'']
          (rerun_world\<lparr>stdout := stdout rerun_world
                          @ [''Processing URL: '' @ base_url_const @ ''/'' @ ''a_PDF'']\<rparr>)"
    by blast
  from t n have 2: "get_file_name_from_url (base_url_const @ ''/'' @ ''a_PDF'') = ''a_PDF''"
    by blast
  from t sample_env_keeps_files rerun_world_fields(1,2) m e'
  have 3: "\<exists>new. calls (snd (main sample_env rerun_world)) = calls rerun_world @ new
         \<and> Get (base_url_const @ ''/'' @ ''a_PDF'') \<notin> set new"
    by blast
  have 4: "calls (snd (main sample_env rerun_world))
       = [Launch ''/app/PDFs'', Get ''about:blank'', Get (base_url_const @ ''/c_PDF''), GetLog,
          Quit]"
    by (simp add: rerun_run)
  from e 1 n 2 sample_env_keeps_files rerun_world_fields(1,2) 3 4 show ?thesis by blast
qed

section \<open>Examples for the listing files\<close>

theorem missing_listing_stops_main_with_one_line_witness:
  "\<not> check_file_exists (fs (sample_world\<lparr>fs := Map.empty\<rparr>)) ''page_1.json''
   \<and> main sample_env (sample_world\<lparr>fs := Map.empty\<rparr>)
       = (Inr (), \<lparr>fs = Map.empty, stdout = [''Error: page_1.json not found.''], calls = []\<rparr>)
   \<and> check_file_exists (fs (sample_world\<lparr>fs := [''page_1.json'' \<mapsto> File sample_text]\<rparr>))
        ''page_1.json''
   \<and> \<not> check_file_exists (fs (sample_world\<lparr>fs := [''page_1.json'' \<mapsto> File sample_text]\<rparr>))
        ''page_2.json''
   \<and> main sample_env (sample_world\<lparr>fs := [''page_1.json'' \<mapsto> File sample_text]\<rparr>)
       = (Inr (), \<lparr>fs = [''page_1.json'' \<mapsto> File sample_text],
                   stdout = [''Error: page_2.json not found.''], calls = []\<rparr>)
   \<and> check_file_exists (fs sample_world) ''page_1.json''
   \<and> check_file_exists (fs sample_world) ''page_2.json''
   \<and> (\<exists>new. stdout (snd (main sample_env sample_world)) = stdout sample_world @ new
         \<and> (\<forall>l\<in>set new. \<forall>p. l \<noteq> ''Error: '' @ p @ '' not found.''))"
proof -
  let ?w1 = "sample_world\<lparr>fs := Map.empty\<rparr>"
  let ?w2 = "sample_world\<lparr>fs := [''page_1.json'' \<mapsto> File sample_text]\<rparr>"
  have a: "\<not> check_file_exists (fs ?w1) ''page_1.json''"
    and b: "check_file_exists (fs ?w2) ''page_1.json''"
    and c: "\<not> check_file_exists (fs ?w2) ''page_2.json''"
    and d: "check_file_exists (fs sample_world) ''page_1.json''"
    and e: "check_file_exists (fs sample_world) ''page_2.json''"
    by (simp_all add: check_file_exists_def sample_world_def)
  have m: "main sample_env sample_world
             = (fst (main sample_env sample_world), snd (main sample_env sample_world))"
    by simp
  from missing_listing_stops_main_with_one_line[of ?w1 sample_env] a
  have 1: "main sample_env ?w1
       = (Inr (), \<lparr>fs = Map.empty, stdout = [''Error: page_1.json not found.''], calls = []\<rparr>)"
    by (simp add: sample_world_def)
  from missing_listing_stops_main_with_one_line[of ?w2 sample_env] b c
  have 2: "main sample_env ?w2
       = (Inr (), \<lparr>fs = [''page_1.json'' \<mapsto> File sample_text],
                   stdout = [''Error: page_2.json not found.''], calls = []\<rparr>)"
    by (simp add: sample_world_def)
  from missing_listing_stops_main_with_one_line[of sample_world sample_env
      "fst (main sample_env sample_world)" "snd (main sample_env sample_world)"] d e m
  have 3: "\<exists>new. stdout (snd (main sample_env sample_world)) = stdout sample_world @ new
         \<and> (\<forall>l\<in>set new. \<forall>p. l \<noteq> ''Error: '' @ p @ '' not found.'')"
    by blast
  from a 1 b c 2 d e 3 show ?thesis by blast
qed

theorem extraction_ignores_second_listing_witness:
  "check_file_exists (fs sample_world) ''page_1.json''
   \<and> check_file_exists (fs sample_world) ''page_2.json''
   \<and> fst (main_extract sample_env
            (sample_world\<lparr>fs := (fs sample_world)(''page_2.json'' \<mapsto> File ''[1, 2'')\<rparr>))
       = fst (main_extract sample_env sample_world)
   \<and> fst (main_extract sample_env sample_world)
       = Inr (Some [base_url_const @ ''/a_PDF'', base_url_const @ ''/c_PDF''])"
proof -
  have d: "check_file_exists (fs sample_world) ''page_1.json''"
    and e: "check_file_exists (fs sample_world) ''page_2.json''"
    by (simp_all add: check_file_exists_def sample_world_def)
  from extraction_ignores_second_listing[OF d e, of sample_env "''[1, 2''"] d e
  show ?thesis by (simp add: sample_main_extract)
qed

end
